theory Spec2Isabelle
  imports Complex_Main
begin

section \<open>Data model (src/src/main.cpp)\<close>

text \<open>The closed enumeration \<^verbatim>\<open>enum class Particle\<close>.\<close>

datatype Particle =
  Empty | Sand | Water | Lava | Stone | Steam | Ice | Acid | Oil | Fire | Smoke | Obsidian

text \<open>The table \<^verbatim>\<open>colors[]\<close>, reduced to the two columns the engine and the
  persistence code read: the type and its one-character symbol, in table order.\<close>

definition colors :: "(Particle \<times> char) list" where
  "colors =
    [(Empty, CHR '' ''), (Sand, CHR ''S''), (Water, CHR ''W''), (Lava, CHR ''L''),
     (Stone, CHR ''#''), (Steam, CHR ''T''), (Ice, CHR ''I''), (Acid, CHR ''A''),
     (Oil, CHR ''O''), (Fire, CHR ''F''), (Smoke, CHR ''M''), (Obsidian, CHR ''B'')]"

text \<open>\<^verbatim>\<open>enum class BrushSize { Small = 1, Medium = 3, Large = 5, XLarge = 7 }\<close>
  and the cast \<^verbatim>\<open>(int)brush\<close>.\<close>

datatype BrushSize = Small | Medium | Large | XLarge

fun brush_int :: "BrushSize \<Rightarrow> int" where
  "brush_int Small = 1"
| "brush_int Medium = 3"
| "brush_int Large = 5"
| "brush_int XLarge = 7"

text \<open>The fields of \<^verbatim>\<open>struct GameState\<close> that \<^verbatim>\<open>ParticleGrid\<close> reads or writes.
  \<^verbatim>\<open>timeSpeed\<close> is a C float: a binary32 value, held here as the rational number it
  denotes; the arithmetic on it rounds as binary32 arithmetic does (section Binary32
  arithmetic below). \<^verbatim>\<open>frameCounter\<close> is a C int that is only ever incremented from 0;
  it is taken as an unbounded integer (the increment is undefined in C++ once it reaches
  \<open>2^31 - 1\<close>).\<close>

record GameState =
  isPaused :: bool
  timeSpeed :: rat
  frameCounter :: int

text \<open>\<^verbatim>\<open>class ParticleGrid\<close>: the two cell buffers and the temperature buffer are
  arrays of \<open>width * height\<close> elements addressed by \<open>y * width + x\<close>. The state of the C
  library's \<^verbatim>\<open>rand()\<close> is carried along as the infinite sequence of its future results
  and the position of the next one. Temperatures are C ints kept far inside the 32-bit range
  by the values the program writes (between -10 and 1000); they are unbounded integers here.\<close>

record ParticleGrid =
  grid :: "Particle list"
  nextGrid :: "Particle list"
  temperature :: "int list"
  width :: int
  height :: int
  gameState :: GameState
  rand_seq :: "nat \<Rightarrow> nat"
  rand_pos :: nat

text \<open>A call of \<^verbatim>\<open>rand()\<close>: its result, and the generator advanced by one.\<close>

definition rand_val :: "ParticleGrid \<Rightarrow> nat" where
  "rand_val s = rand_seq s (rand_pos s)"

definition rand_adv :: "ParticleGrid \<Rightarrow> ParticleGrid" where
  "rand_adv s = s\<lparr>rand_pos := Suc (rand_pos s)\<rparr>"

text \<open>The expression \<^verbatim>\<open>(rand() % 2) ? 1 : -1\<close> on a drawn value.\<close>

definition dir_of :: "nat \<Rightarrow> int" where
  "dir_of r = (if r mod 2 \<noteq> 0 then 1 else - 1)"

text \<open>C++ integer division truncates toward zero.\<close>

definition cdiv :: "int \<Rightarrow> int \<Rightarrow> int" where
  "cdiv a b = sgn a * sgn b * (\<bar>a\<bar> div \<bar>b\<bar>)"

text \<open>The cast \<^verbatim>\<open>(int)\<close> of a float truncates toward zero.\<close>

definition trunc_int :: "rat \<Rightarrow> int" where
  "trunc_int r = (if 0 \<le> r then \<lfloor>r\<rfloor> else \<lceil>r\<rceil>)"

section \<open>Binary32 arithmetic\<close>

text \<open>The result of a float operation is the exact result rounded to the nearest binary32
  value, ties to the value with an even significand (IEEE 754, the default rounding mode).
  The binary32 values around a number \<open>q\<close> with \<open>2^e \<le> |q| < 2^(e+1)\<close> are the integer
  multiples of \<open>2^(e-23)\<close> (24 bits of significand), and of \<open>2^(-149)\<close> below the normal
  range, where \<open>e < -126\<close>.\<close>

text \<open>The number of binary digits of a positive integer.\<close>

function bit_length :: "int \<Rightarrow> int" where
  "bit_length a = (if a \<le> 0 then 0 else 1 + bit_length (a div 2))"
  by pat_completeness auto
termination
  by (relation "measure nat") auto

declare bit_length.simps [simp del]

text \<open>The exponent \<open>e\<close> with \<open>2^e \<le> q < 2^(e+1)\<close> of a positive rational: the difference of
  the bit lengths of numerator and denominator, or one less.\<close>

definition ilog2 :: "rat \<Rightarrow> int" where
  "ilog2 q =
    (case quotient_of q of (a, b) \<Rightarrow>
       (let e = bit_length a - bit_length b in if 2 powi e \<le> q then e else e - 1))"

text \<open>The nearest integer, a tie going to the even one.\<close>

definition round_even :: "rat \<Rightarrow> int" where
  "round_even r =
    (let f = \<lfloor>r\<rfloor>; d = r - of_int f in
     if d < 1 / 2 then f else if 1 / 2 < d then f + 1 else if even f then f else f + 1)"

text \<open>The distance between neighbouring binary32 values at \<open>q\<close>.\<close>

definition f32_ulp :: "rat \<Rightarrow> rat" where
  "f32_ulp q = 2 powi (max (ilog2 \<bar>q\<bar>) (- 126) - 23)"

text \<open>Rounding to binary32. The exponent is not bounded above: a result of magnitude
  \<open>2^128\<close> or more stands for the infinity that binary32 arithmetic returns there.\<close>

definition f32_round :: "rat \<Rightarrow> rat" where
  "f32_round q = (if q = 0 then 0 else of_int (round_even (q / f32_ulp q)) * f32_ulp q)"

text \<open>The float operators \<^verbatim>\<open>/\<close>, \<^verbatim>\<open>+\<close> and \<^verbatim>\<open>-\<close> on two binary32 values (the
  divisor not zero).\<close>

definition f32_div :: "rat \<Rightarrow> rat \<Rightarrow> rat" where
  "f32_div a b = f32_round (a / b)"

definition f32_add :: "rat \<Rightarrow> rat \<Rightarrow> rat" where
  "f32_add a b = f32_round (a + b)"


text \<open>The time speed control of the main loop: the key \<^verbatim>\<open>=\<close> runs
  \<^verbatim>\<open>timeSpeed = std::min(4.0f, timeSpeed + 0.25f)\<close> and the key \<^verbatim>\<open>-\<close> runs
  \<^verbatim>\<open>timeSpeed = std::max(0.1f, timeSpeed - 0.25f)\<close>. The literals \<^verbatim>\<open>4.0f\<close> and
  \<^verbatim>\<open>0.25f\<close> are binary32 values; \<^verbatim>\<open>0.1f\<close> is the binary32 value nearest to
  \<open>1/10\<close>.\<close>

definition speed_up :: "GameState \<Rightarrow> GameState" where
  "speed_up st = st\<lparr>timeSpeed := min 4 (f32_add (timeSpeed st) (1 / 4))\<rparr>"


section \<open>Grid Store\<close>

text \<open>The bounds test that opens every accessor, and the array index.\<close>

definition oob :: "int \<Rightarrow> int \<Rightarrow> int \<Rightarrow> int \<Rightarrow> bool" where
  "oob w h x y = (x < 0 \<or> x \<ge> w \<or> y < 0 \<or> y \<ge> h)"

definition idx :: "int \<Rightarrow> int \<Rightarrow> int \<Rightarrow> nat" where
  "idx w x y = nat (y * w + x)"

definition Get :: "ParticleGrid \<Rightarrow> int \<Rightarrow> int \<Rightarrow> Particle" where
  "Get s x y = (if oob (width s) (height s) x y then Stone else grid s ! idx (width s) x y)"

definition Set :: "ParticleGrid \<Rightarrow> int \<Rightarrow> int \<Rightarrow> Particle \<Rightarrow> ParticleGrid" where
  "Set s x y p =
    (if oob (width s) (height s) x y then s
     else if y \<ge> height s - 2 \<or> x = 0 \<or> x = width s - 1 then s
     else s\<lparr>grid := (grid s)[idx (width s) x y := p]\<rparr>)"

definition GetTemperature :: "ParticleGrid \<Rightarrow> int \<Rightarrow> int \<Rightarrow> int" where
  "GetTemperature s x y =
    (if oob (width s) (height s) x y then 20 else temperature s ! idx (width s) x y)"

definition SetTemperature :: "ParticleGrid \<Rightarrow> int \<Rightarrow> int \<Rightarrow> int \<Rightarrow> ParticleGrid" where
  "SetTemperature s x y temp =
    (if oob (width s) (height s) x y then s
     else s\<lparr>temperature := (temperature s)[idx (width s) x y := temp]\<rparr>)"

definition SetNext :: "ParticleGrid \<Rightarrow> int \<Rightarrow> int \<Rightarrow> Particle \<Rightarrow> ParticleGrid" where
  "SetNext s x y p =
    (if oob (width s) (height s) x y then s
     else s\<lparr>nextGrid := (nextGrid s)[idx (width s) x y := p]\<rparr>)"

text \<open>\<^verbatim>\<open>CreateGround\<close> and \<^verbatim>\<open>CreateGroundNext\<close> run the same two loops, one on
  \<^verbatim>\<open>grid\<close> and one on \<^verbatim>\<open>nextGrid\<close>: the two bottom rows, then the side walls
  for \<open>y < height - 1\<close>.\<close>

definition ground_row :: "int \<Rightarrow> int \<Rightarrow> Particle list \<Rightarrow> int \<Rightarrow> Particle list" where
  "ground_row w h g x = (g[idx w x (h - 1) := Stone])[idx w x (h - 2) := Stone]"

definition ground_wall :: "int \<Rightarrow> Particle list \<Rightarrow> int \<Rightarrow> Particle list" where
  "ground_wall w g y = (g[idx w 0 y := Stone])[idx w (w - 1) y := Stone]"

definition stamp_ground :: "int \<Rightarrow> int \<Rightarrow> Particle list \<Rightarrow> Particle list" where
  "stamp_ground w h g = foldl (ground_wall w) (foldl (ground_row w h) g [0..w - 1]) [0..h - 2]"

definition CreateGround :: "ParticleGrid \<Rightarrow> ParticleGrid" where
  "CreateGround s = s\<lparr>grid := stamp_ground (width s) (height s) (grid s)\<rparr>"

definition CreateGroundNext :: "ParticleGrid \<Rightarrow> ParticleGrid" where
  "CreateGroundNext s = s\<lparr>nextGrid := stamp_ground (width s) (height s) (nextGrid s)\<rparr>"

text \<open>\<^verbatim>\<open>Clear\<close>: every element of the three arrays is overwritten, then the ground is
  stamped into \<^verbatim>\<open>grid\<close> only.\<close>

definition Clear :: "ParticleGrid \<Rightarrow> ParticleGrid" where
  "Clear s =
    CreateGround
      (s\<lparr>grid := replicate (nat (width s * height s)) Empty,
         nextGrid := replicate (nat (width s * height s)) Empty,
         temperature := replicate (nat (width s * height s)) 20\<rparr>)"

text \<open>The constructor: three value-initialised arrays, \<^verbatim>\<open>Clear()\<close>, \<^verbatim>\<open>CreateGround()\<close>.\<close>

definition ParticleGrid_new ::
  "int \<Rightarrow> int \<Rightarrow> GameState \<Rightarrow> (nat \<Rightarrow> nat) \<Rightarrow> nat \<Rightarrow> ParticleGrid" where
  "ParticleGrid_new w h st rs rp =
    CreateGround (Clear
      \<lparr>grid = replicate (nat (w * h)) Empty, nextGrid = replicate (nat (w * h)) Empty,
       temperature = replicate (nat (w * h)) 0, width = w, height = h, gameState = st,
       rand_seq = rs, rand_pos = rp\<rparr>)"

section \<open>Reaction Engine\<close>

text \<open>The offsets \<open>(dx, dy)\<close> of the loop nest \<^verbatim>\<open>for dy in -1..1, for dx in -1..1\<close>
  with \<open>(0, 0)\<close> skipped, in the order the nest visits them.\<close>

definition offsets8 :: "(int \<times> int) list" where
  "offsets8 = [(- 1, - 1), (0, - 1), (1, - 1), (- 1, 0), (1, 0), (- 1, 1), (0, 1), (1, 1)]"

definition CheckNeighbor :: "ParticleGrid \<Rightarrow> int \<Rightarrow> int \<Rightarrow> Particle \<Rightarrow> bool" where
  "CheckNeighbor s x y target = list_ex (\<lambda>(dx, dy). Get s (x + dx) (y + dy) = target) offsets8"

definition ReplaceNeighbor ::
  "ParticleGrid \<Rightarrow> int \<Rightarrow> int \<Rightarrow> Particle \<Rightarrow> Particle \<Rightarrow> ParticleGrid" where
  "ReplaceNeighbor s x y target replacement =
    (case find (\<lambda>(dx, dy). Get s (x + dx) (y + dy) = target) offsets8 of
       None \<Rightarrow> s
     | Some (dx, dy) \<Rightarrow> SetNext s (x + dx) (y + dy) replacement)"

text \<open>The neighbour loop of the Acid case; \<open>True\<close> is the \<^verbatim>\<open>return true\<close> inside it.\<close>

fun acid_scan ::
  "ParticleGrid \<Rightarrow> int \<Rightarrow> int \<Rightarrow> (int \<times> int) list \<Rightarrow> bool \<times> ParticleGrid" where
  "acid_scan s x y [] = (False, s)"
| "acid_scan s x y ((dx, dy) # rest) =
    (let nx = x + dx; ny = y + dy in
     if nx > 0 \<and> nx < width s - 1 \<and> ny > 0 \<and> ny < height s - 2 then
       (let neighbor = Get s nx ny in
        if neighbor = Sand \<or> neighbor = Ice then
          (let s1 = SetNext s nx ny Empty; r = rand_val s1; s2 = rand_adv s1 in
           if r mod 8 = 0 then (True, SetNext s2 x y Empty)
           else acid_scan s2 x y rest)
        else acid_scan s x y rest)
     else acid_scan s x y rest)"

definition ProcessReactions :: "ParticleGrid \<Rightarrow> int \<Rightarrow> int \<Rightarrow> bool \<times> ParticleGrid" where
  "ProcessReactions s x y =
    (case Get s x y of
       Lava \<Rightarrow>
         if CheckNeighbor s x y Water then
           (True, ReplaceNeighbor (SetNext s x y Obsidian) x y Water Steam)
         else if GetTemperature s x y < 500 then (True, SetNext s x y Stone)
         else (False, s)
     | Water \<Rightarrow>
         if CheckNeighbor s x y Lava \<or> CheckNeighbor s x y Fire \<or> GetTemperature s x y > 100
         then (True, SetNext s x y Steam)
         else if GetTemperature s x y < 0 then (True, SetNext s x y Ice)
         else (False, s)
     | Ice \<Rightarrow>
         if GetTemperature s x y > 0 \<or> CheckNeighbor s x y Lava \<or> CheckNeighbor s x y Fire
         then (True, SetNext s x y Water)
         else (False, s)
     | Steam \<Rightarrow>
         if GetTemperature s x y < 50 then
           (let r = rand_val s; s1 = rand_adv s in
            if r mod 20 = 0 then (True, SetNext s1 x y Water) else (False, s1))
         else (False, s)
     | Fire \<Rightarrow>
         if CheckNeighbor s x y Oil then
           (let s1 = ReplaceNeighbor s x y Oil Fire; r = rand_val s1; s2 = rand_adv s1 in
            if r mod 30 = 0 then (True, SetNext s2 x y Smoke) else (False, s2))
         else if CheckNeighbor s x y Water then
           (True, ReplaceNeighbor (SetNext s x y Smoke) x y Water Steam)
         else
           (let r = rand_val s; s1 = rand_adv s in
            if r mod 50 = 0 then (True, SetNext s1 x y Smoke) else (False, s1))
     | Acid \<Rightarrow> acid_scan s x y offsets8
     | Oil \<Rightarrow>
         if CheckNeighbor s x y Fire \<or> CheckNeighbor s x y Lava
         then (True, SetNext s x y Fire)
         else (False, s)
     | _ \<Rightarrow> (False, s))"

section \<open>Movement Engine\<close>

definition CanMoveDown :: "ParticleGrid \<Rightarrow> int \<Rightarrow> int \<Rightarrow> bool" where
  "CanMoveDown s x y =
    (let below = Get s x (y + 1); current = Get s x y in
     if below = Empty then True
     else if below = Steam \<and>
        (current = Water \<or> current = Lava \<or> current = Acid \<or> current = Oil) then True
     else False)"

definition CanMoveSide :: "ParticleGrid \<Rightarrow> int \<Rightarrow> int \<Rightarrow> int \<Rightarrow> bool" where
  "CanMoveSide s x y dir = (let side = Get s (x + dir) y in side = Empty \<or> side = Steam)"

text \<open>The tail shared by every downward or diagonal move: the origin receives Steam when
  the target held Steam in the current buffer, Empty otherwise.\<close>

definition leave_origin :: "ParticleGrid \<Rightarrow> int \<Rightarrow> int \<Rightarrow> int \<Rightarrow> int \<Rightarrow> ParticleGrid" where
  "leave_origin s x y tx ty =
    (if Get s tx ty = Steam then SetNext s x y Steam else SetNext s x y Empty)"

definition UpdateSand :: "ParticleGrid \<Rightarrow> int \<Rightarrow> int \<Rightarrow> ParticleGrid" where
  "UpdateSand s x y =
    (if CanMoveDown s x y then leave_origin (SetNext s x (y + 1) Sand) x y x (y + 1)
     else
       (let dir = dir_of (rand_val s); s1 = rand_adv s in
        if Get s1 (x + dir) (y + 1) = Empty \<or> Get s1 (x + dir) (y + 1) = Steam then
          leave_origin (SetNext s1 (x + dir) (y + 1) Sand) x y (x + dir) (y + 1)
        else if Get s1 (x - dir) (y + 1) = Empty \<or> Get s1 (x - dir) (y + 1) = Steam then
          leave_origin (SetNext s1 (x - dir) (y + 1) Sand) x y (x - dir) (y + 1)
        else s1))"

text \<open>\<^verbatim>\<open>UpdateWater\<close> and \<^verbatim>\<open>UpdateAcid\<close> are the same code but for the type
  written; the body of \<^verbatim>\<open>UpdateOil\<close> under its gate is that code again.\<close>

definition flow_liquid :: "Particle \<Rightarrow> ParticleGrid \<Rightarrow> int \<Rightarrow> int \<Rightarrow> ParticleGrid" where
  "flow_liquid p s x y =
    (if CanMoveDown s x y then leave_origin (SetNext s x (y + 1) p) x y x (y + 1)
     else
       (let dir = dir_of (rand_val s); s1 = rand_adv s in
        if CanMoveSide s1 x y dir then SetNext (SetNext s1 (x + dir) y p) x y Empty
        else if CanMoveSide s1 x y (- dir) then SetNext (SetNext s1 (x - dir) y p) x y Empty
        else s1))"

definition UpdateWater :: "ParticleGrid \<Rightarrow> int \<Rightarrow> int \<Rightarrow> ParticleGrid" where
  "UpdateWater s x y = flow_liquid Water s x y"

definition UpdateAcid :: "ParticleGrid \<Rightarrow> int \<Rightarrow> int \<Rightarrow> ParticleGrid" where
  "UpdateAcid s x y = flow_liquid Acid s x y"

definition UpdateOil :: "ParticleGrid \<Rightarrow> int \<Rightarrow> int \<Rightarrow> ParticleGrid" where
  "UpdateOil s x y =
    (let r = rand_val s; s1 = rand_adv s in
     if r mod 2 = 0 then flow_liquid Oil s1 x y else s1)"

definition UpdateLava :: "ParticleGrid \<Rightarrow> int \<Rightarrow> int \<Rightarrow> ParticleGrid" where
  "UpdateLava s x y =
    (let s' =
       (if CanMoveDown s x y then
          leave_origin (SetTemperature (SetNext s x (y + 1) Lava) x (y + 1) 1000) x y x (y + 1)
        else
          (let dir = dir_of (rand_val s); s1 = rand_adv s in
           if CanMoveSide s1 x y dir then
             SetNext (SetTemperature (SetNext s1 (x + dir) y Lava) (x + dir) y 1000) x y Empty
           else if CanMoveSide s1 x y (- dir) then
             SetNext (SetTemperature (SetNext s1 (x - dir) y Lava) (x - dir) y 1000) x y Empty
           else s1))
     in SetTemperature s' x y 1000)"

definition UpdateSteam :: "ParticleGrid \<Rightarrow> int \<Rightarrow> int \<Rightarrow> ParticleGrid" where
  "UpdateSteam s x y =
    (if Get s x (y - 1) = Empty then SetNext (SetNext s x (y - 1) Steam) x y Empty
     else
       (let dir = dir_of (rand_val s); s1 = rand_adv s in
        if Get s1 (x + dir) y = Empty then SetNext (SetNext s1 (x + dir) y Steam) x y Empty
        else if Get s1 (x - dir) y = Empty then SetNext (SetNext s1 (x - dir) y Steam) x y Empty
        else
          (let r = rand_val s1; s2 = rand_adv s1 in
           if r mod 100 = 0 then SetNext s2 x y Empty else s2)))"

definition UpdateIce :: "ParticleGrid \<Rightarrow> int \<Rightarrow> int \<Rightarrow> ParticleGrid" where
  "UpdateIce s x y = s"

text \<open>\<^verbatim>\<open>UpdateFire\<close>: the pairs carry the local \<^verbatim>\<open>moved\<close>. The draw modulo 3 is made
  only when the cell above is Empty, the draw modulo 4 only when the fire has not moved.\<close>

definition fire_rise :: "ParticleGrid \<Rightarrow> int \<Rightarrow> int \<Rightarrow> bool \<times> ParticleGrid" where
  "fire_rise s x y =
    (if Get s x (y - 1) = Empty then
       (let r = rand_val s; s1 = rand_adv s in
        if r mod 3 = 0 then (True, SetTemperature (SetNext s1 x (y - 1) Fire) x (y - 1) 800)
        else (False, s1))
     else (False, s))"

definition fire_spread :: "bool \<times> ParticleGrid \<Rightarrow> int \<Rightarrow> int \<Rightarrow> bool \<times> ParticleGrid" where
  "fire_spread ms x y =
    (case ms of (moved, s) \<Rightarrow>
       if \<not> moved then
         (let r = rand_val s; s1 = rand_adv s in
          if r mod 4 = 0 then
            (let dir = dir_of (rand_val s1); s2 = rand_adv s1 in
             if Get s2 (x + dir) y = Empty then
               (True, SetTemperature (SetNext s2 (x + dir) y Fire) (x + dir) y 800)
             else (moved, s2))
          else (moved, s1))
       else (moved, s))"

definition UpdateFire :: "ParticleGrid \<Rightarrow> int \<Rightarrow> int \<Rightarrow> ParticleGrid" where
  "UpdateFire s x y =
    (case fire_spread (fire_rise s x y) x y of (moved, s2) \<Rightarrow>
       SetTemperature (if moved then SetNext s2 x y Empty else s2) x y 800)"

text \<open>\<^verbatim>\<open>UpdateSmoke\<close>: \<^verbatim>\<open>smoke_move\<close> is the first if/else, then the fading draw.
  A draw is made only when the conditions to its left in the \<^verbatim>\<open>&&\<close> chain hold.\<close>

definition smoke_disperse :: "ParticleGrid \<Rightarrow> int \<Rightarrow> int \<Rightarrow> ParticleGrid" where
  "smoke_disperse s x y =
    (let dir = int (rand_val s mod 3) - 1; s1 = rand_adv s in
     if dir \<noteq> 0 \<and> Get s1 (x + dir) y = Empty then
       (let r = rand_val s1; s2 = rand_adv s1 in
        if r mod 4 = 0 then SetNext (SetNext s2 (x + dir) y Smoke) x y Empty else s2)
     else s1)"

definition smoke_move :: "ParticleGrid \<Rightarrow> int \<Rightarrow> int \<Rightarrow> ParticleGrid" where
  "smoke_move s x y =
    (if Get s x (y - 1) = Empty then
       (let r = rand_val s; s1 = rand_adv s in
        if r mod 3 = 0 then SetNext (SetNext s1 x (y - 1) Smoke) x y Empty
        else smoke_disperse s1 x y)
     else smoke_disperse s x y)"

definition UpdateSmoke :: "ParticleGrid \<Rightarrow> int \<Rightarrow> int \<Rightarrow> ParticleGrid" where
  "UpdateSmoke s x y =
    (let s1 = smoke_move s x y; r = rand_val s1; s2 = rand_adv s1 in
     if r mod 80 = 0 then SetNext s2 x y Empty else s2)"

section \<open>The tick\<close>

text \<open>The body of the scan loop of \<^verbatim>\<open>Update\<close> at one cell.\<close>

definition move_cell :: "Particle \<Rightarrow> ParticleGrid \<Rightarrow> int \<Rightarrow> int \<Rightarrow> ParticleGrid" where
  "move_cell p s x y =
    (case p of
       Sand \<Rightarrow> UpdateSand s x y
     | Water \<Rightarrow> UpdateWater s x y
     | Lava \<Rightarrow> UpdateLava s x y
     | Steam \<Rightarrow> UpdateSteam s x y
     | Ice \<Rightarrow> UpdateIce s x y
     | Acid \<Rightarrow> UpdateAcid s x y
     | Oil \<Rightarrow> UpdateOil s x y
     | Fire \<Rightarrow> UpdateFire s x y
     | Smoke \<Rightarrow> UpdateSmoke s x y
     | _ \<Rightarrow> s)"

definition Update_cell :: "ParticleGrid \<Rightarrow> int \<times> int \<Rightarrow> ParticleGrid" where
  "Update_cell s c =
    (case c of (x, y) \<Rightarrow>
       (let p = Get s x y in
        if p = Empty then s
        else (case ProcessReactions s x y of
                (True, s1) \<Rightarrow> s1
              | (False, s1) \<Rightarrow> move_cell p s1 x y)))"

text \<open>The cells in the order the scan visits them: \<open>y\<close> from \<open>height - 3\<close> down to 0,
  \<open>x\<close> from 1 up to \<open>width - 2\<close>.\<close>

definition scan_cells :: "int \<Rightarrow> int \<Rightarrow> (int \<times> int) list" where
  "scan_cells w h = concat (map (\<lambda>y. map (\<lambda>x. (x, y)) [1..w - 2]) (rev [0..h - 3]))"

section \<open>Temperature Field\<close>

text \<open>The accumulation of \<^verbatim>\<open>avgTemp\<close> and \<^verbatim>\<open>neighbors\<close> over the eight offsets.\<close>

definition temp_acc :: "ParticleGrid \<Rightarrow> int \<Rightarrow> int \<Rightarrow> int \<times> int \<Rightarrow> int \<times> int \<Rightarrow> int \<times> int" where
  "temp_acc s x y acc d =
    (case acc of (avgTemp, neighbors) \<Rightarrow> (case d of (dx, dy) \<Rightarrow>
       if Get s (x + dx) (y + dy) \<noteq> Empty
       then (avgTemp + GetTemperature s (x + dx) (y + dy), neighbors + 1)
       else (avgTemp, neighbors)))"

definition UpdateTemperature_cell :: "ParticleGrid \<Rightarrow> int \<times> int \<Rightarrow> ParticleGrid" where
  "UpdateTemperature_cell s c =
    (case c of (x, y) \<Rightarrow>
       if Get s x y = Empty then s
       else
         (case foldl (temp_acc s x y) (GetTemperature s x y, 1) offsets8 of
            (avgTemp, neighbors) \<Rightarrow>
              (let newTemp = cdiv avgTemp neighbors;
                   newTemp1 = (if newTemp > 20 then max 20 (newTemp - 1) else newTemp);
                   newTemp2 = (if newTemp1 < 20 then min 20 (newTemp1 + 1) else newTemp1)
               in SetTemperature s x y newTemp2)))"

text \<open>The cells the diffusion visits: \<open>y\<close> from 1 up to \<open>height - 2\<close>, \<open>x\<close> from 1 up to
  \<open>width - 2\<close>.\<close>

definition temp_cells :: "int \<Rightarrow> int \<Rightarrow> (int \<times> int) list" where
  "temp_cells w h = concat (map (\<lambda>y. map (\<lambda>x. (x, y)) [1..w - 2]) [1..h - 2])"

definition UpdateTemperature :: "ParticleGrid \<Rightarrow> ParticleGrid" where
  "UpdateTemperature s = foldl UpdateTemperature_cell s (temp_cells (width s) (height s))"

section \<open>Update\<close>

text \<open>\<^verbatim>\<open>int skipFrames = std::max(1, (int)(1.0f / gameState->timeSpeed))\<close>: the division is
  a float division, its rounded result is truncated by the cast. The cast is undefined in
  C++ when the quotient is outside the range of int, which includes the quotient by 0.\<close>

definition skipFrames :: "GameState \<Rightarrow> int" where
  "skipFrames st = max 1 (trunc_int (f32_div 1 (timeSpeed st)))"

text \<open>\<^verbatim>\<open>std::swap(grid, nextGrid)\<close> exchanges the two buffers.\<close>

definition swap_grids :: "ParticleGrid \<Rightarrow> ParticleGrid" where
  "swap_grids s = s\<lparr>grid := nextGrid s, nextGrid := grid s\<rparr>"

text \<open>What \<^verbatim>\<open>Update\<close> does once both gates are passed: copy, ground, scan, diffusion,
  swap.\<close>

definition tick :: "ParticleGrid \<Rightarrow> ParticleGrid" where
  "tick s =
    swap_grids (UpdateTemperature
      (foldl Update_cell (CreateGroundNext (s\<lparr>nextGrid := grid s\<rparr>))
         (scan_cells (width s) (height s))))"

definition count_frame :: "ParticleGrid \<Rightarrow> ParticleGrid" where
  "count_frame s =
    s\<lparr>gameState := (gameState s)\<lparr>frameCounter := frameCounter (gameState s) + 1\<rparr>\<rparr>"

definition Update :: "ParticleGrid \<Rightarrow> ParticleGrid" where
  "Update s =
    (if isPaused (gameState s) then s
     else
       (let s1 = count_frame s in
        if frameCounter (gameState s1) mod skipFrames (gameState s1) \<noteq> 0 then s1
        else tick s1))"

section \<open>Brush Placement\<close>

definition initial_temperature :: "Particle \<Rightarrow> int" where
  "initial_temperature p =
    (case p of Lava \<Rightarrow> 1000 | Fire \<Rightarrow> 1000 | Ice \<Rightarrow> - 10 | Steam \<Rightarrow> 100 | _ \<Rightarrow> 20)"

text \<open>The body of the loop nest of \<^verbatim>\<open>AddParticle\<close> at one offset.\<close>

definition AddParticle_at ::
  "int \<Rightarrow> int \<Rightarrow> Particle \<Rightarrow> int \<Rightarrow> ParticleGrid \<Rightarrow> int \<times> int \<Rightarrow> ParticleGrid" where
  "AddParticle_at x y p brushRadius s d =
    (case d of (dx, dy) \<Rightarrow>
       (let nx = x + dx; ny = y + dy in
        if dx * dx + dy * dy \<le> brushRadius * brushRadius then
          if nx > 0 \<and> nx < width s - 1 \<and> ny \<ge> 0 \<and> ny < height s - 2 then
            if p = Empty \<or> Get s nx ny = Empty \<or> Get s nx ny = Steam then
              SetTemperature (Set s nx ny p) nx ny (initial_temperature p)
            else s
          else s
        else s))"

definition brush_offsets :: "int \<Rightarrow> (int \<times> int) list" where
  "brush_offsets r = concat (map (\<lambda>dy. map (\<lambda>dx. (dx, dy)) [- r..r]) [- r..r])"

definition AddParticle :: "ParticleGrid \<Rightarrow> int \<Rightarrow> int \<Rightarrow> Particle \<Rightarrow> BrushSize \<Rightarrow> ParticleGrid" where
  "AddParticle s x y p brush =
    (let brushRadius = cdiv (brush_int brush) 2 in
     foldl (AddParticle_at x y p brushRadius) s (brush_offsets brushRadius))"

section \<open>Persistence\<close>

definition GetSymbolForParticle :: "Particle \<Rightarrow> char" where
  "GetSymbolForParticle p =
    (case find (\<lambda>cm. fst cm = p) colors of Some cm \<Rightarrow> snd cm | None \<Rightarrow> CHR '' '')"

definition ParticleFromSymbol :: "char \<Rightarrow> Particle" where
  "ParticleFromSymbol c =
    (case find (\<lambda>cm. snd cm = c) colors of Some cm \<Rightarrow> fst cm | None \<Rightarrow> Empty)"

text \<open>The decimal text that \<^verbatim>\<open>operator<<\<close> writes for an int.\<close>

definition digit_char :: "nat \<Rightarrow> char" where
  "digit_char d = ''0123456789'' ! d"

function show_nat :: "nat \<Rightarrow> string" where
  "show_nat n = (if n < 10 then [digit_char n] else show_nat (n div 10) @ [digit_char (n mod 10)])"
  by pat_completeness auto
termination
  by (relation "measure id") auto

declare show_nat.simps [simp del]

definition show_int :: "int \<Rightarrow> string" where
  "show_int i = (if i < 0 then CHR ''-'' # show_nat (nat (- i)) else show_nat (nat i))"

definition newline :: char where
  "newline = CHR 0x0A"

definition save_row :: "ParticleGrid \<Rightarrow> int \<Rightarrow> string" where
  "save_row s y = map (\<lambda>x. GetSymbolForParticle (Get s x y)) [0..width s - 1] @ [newline]"

text \<open>The text \<^verbatim>\<open>SaveToFile\<close> writes when the file opens.\<close>

definition SaveToFile :: "ParticleGrid \<Rightarrow> string" where
  "SaveToFile s =
    ''# Particle Simulator Save File'' @ [newline] @
    ''# Width: '' @ show_int (width s) @ '' Height: '' @ show_int (height s) @ [newline] @
    concat (map (save_row s) [0..height s - 1])"

text \<open>The successive lines \<^verbatim>\<open>std::getline\<close> returns on a text until it fails: a last
  line without its newline is returned when it is not empty.\<close>

fun getlines :: "string \<Rightarrow> string \<Rightarrow> string list" where
  "getlines acc [] = (if acc = [] then [] else [rev acc])"
| "getlines acc (c # cs) =
    (if c = newline then rev acc # getlines [] cs else getlines (c # acc) cs)"

text \<open>The body of the column loop of \<^verbatim>\<open>LoadFromFile\<close>, the column loop, and the line
  loop.\<close>

definition load_cell :: "int \<Rightarrow> string \<Rightarrow> ParticleGrid \<Rightarrow> int \<Rightarrow> ParticleGrid" where
  "load_cell y line s x =
    (let p = ParticleFromSymbol (line ! nat x) in
     if y \<ge> height s - 2 \<or> x = 0 \<or> x = width s - 1 then Set s x y Stone else Set s x y p)"

definition load_line :: "ParticleGrid \<Rightarrow> int \<Rightarrow> string \<Rightarrow> ParticleGrid" where
  "load_line s y line = foldl (load_cell y line) s [0..min (int (length line)) (width s) - 1]"

fun load_lines :: "ParticleGrid \<Rightarrow> int \<Rightarrow> string list \<Rightarrow> ParticleGrid" where
  "load_lines s y [] = s"
| "load_lines s y (line # rest) =
    (if y < height s then
       (if line = [] \<or> hd line = CHR ''#'' then load_lines s y rest
        else load_lines (load_line s y line) (y + 1) rest)
     else s)"

text \<open>\<^verbatim>\<open>LoadFromFile\<close> on the content of the file, \<open>None\<close> when it cannot be opened.\<close>

definition LoadFromFile :: "ParticleGrid \<Rightarrow> string option \<Rightarrow> ParticleGrid" where
  "LoadFromFile s file =
    (case file of None \<Rightarrow> s | Some content \<Rightarrow> load_lines (Clear s) 0 (getlines [] content))"

section \<open>Well-formed grids and reachable states\<close>

text \<open>The three arrays have \<open>width * height\<close> elements, and the dimensions are those for
  which every index \<^verbatim>\<open>CreateGround\<close> writes is inside the arrays.\<close>

definition well_formed :: "ParticleGrid \<Rightarrow> bool" where
  "well_formed s =
    (1 \<le> width s \<and> 2 \<le> height s \<and>
     length (grid s) = nat (width s * height s) \<and>
     length (nextGrid s) = nat (width s * height s) \<and>
     length (temperature s) = nat (width s * height s))"

text \<open>The protected boundary: the two bottom rows and the outer columns.\<close>

definition boundary :: "ParticleGrid \<Rightarrow> int \<Rightarrow> int \<Rightarrow> bool" where
  "boundary s x y =
    (\<not> oob (width s) (height s) x y \<and> (y \<ge> height s - 2 \<or> x = 0 \<or> x = width s - 1))"

text \<open>Reading the next buffer at a cell, for stating what a tick has written so far.\<close>

definition GetNext :: "ParticleGrid \<Rightarrow> int \<Rightarrow> int \<Rightarrow> Particle" where
  "GetNext s x y = (if oob (width s) (height s) x y then Stone else nextGrid s ! idx (width s) x y)"

text \<open>The two gates of \<^verbatim>\<open>Update\<close> are passed: pause is off, and the incremented frame
  counter is a multiple of \<open>skipFrames\<close>.\<close>

definition performs_tick :: "ParticleGrid \<Rightarrow> bool" where
  "performs_tick s =
    (\<not> isPaused (gameState s) \<and>
     (frameCounter (gameState s) + 1) mod skipFrames (gameState s) = 0)"

text \<open>The next buffer as the constructor and \<^verbatim>\<open>Clear\<close> leave it.\<close>

definition next_all_empty :: "ParticleGrid \<Rightarrow> bool" where
  "next_all_empty s = (nextGrid s = replicate (length (nextGrid s)) Empty)"

text \<open>The states the program can be in: the constructor's grid, then any sequence of calls of
  the public methods that change the state. The last two rules are the main loop: it
  changes the clock (pause, speed), and \<^verbatim>\<open>Draw\<close> consumes draws of \<^verbatim>\<open>rand()\<close>.\<close>

inductive reachable :: "ParticleGrid \<Rightarrow> bool" where
  r_new: "1 \<le> w \<Longrightarrow> 2 \<le> h \<Longrightarrow> reachable (ParticleGrid_new w h st rs rp)"
| r_Update: "reachable s \<Longrightarrow> reachable (Update s)"
| r_AddParticle: "reachable s \<Longrightarrow> reachable (AddParticle s x y p b)"
| r_Clear: "reachable s \<Longrightarrow> reachable (Clear s)"
| r_LoadFromFile: "reachable s \<Longrightarrow> reachable (LoadFromFile s f)"
| r_Set: "reachable s \<Longrightarrow> reachable (Set s x y p)"
| r_SetTemperature: "reachable s \<Longrightarrow> reachable (SetTemperature s x y t)"
| r_clock: "reachable s \<Longrightarrow> reachable (s\<lparr>gameState := st\<rparr>)"
| r_rand: "reachable s \<Longrightarrow> reachable (s\<lparr>rand_pos := n\<rparr>)"

text \<open>What holds in every reachable state: the boundary is Stone in the current buffer, and
  in the next buffer it is Stone too unless that buffer is still all Empty.\<close>

definition grid_inv :: "ParticleGrid \<Rightarrow> bool" where
  "grid_inv s =
    (well_formed s \<and> (\<forall>x y. boundary s x y \<longrightarrow> Get s x y = Stone) \<and>
     ((\<forall>x y. boundary s x y \<longrightarrow> GetNext s x y = Stone) \<or> next_all_empty s))"

text \<open>The state in which the scan of a tick starts, and the state in which it ends.\<close>

definition scan_start :: "ParticleGrid \<Rightarrow> ParticleGrid" where
  "scan_start s = CreateGroundNext (s\<lparr>nextGrid := grid s\<rparr>)"

definition scan_end :: "ParticleGrid \<Rightarrow> ParticleGrid" where
  "scan_end s = foldl Update_cell (scan_start s) (scan_cells (width s) (height s))"

section \<open>What one cell of the scan may write\<close>

text \<open>Two states with the same current buffer, dimensions, clock and random sequence, and
  buffers of the same sizes.\<close>

definition same_frame :: "ParticleGrid \<Rightarrow> ParticleGrid \<Rightarrow> bool" where
  "same_frame s s' =
    (grid s' = grid s \<and> width s' = width s \<and> height s' = height s \<and>
     gameState s' = gameState s \<and> rand_seq s' = rand_seq s \<and>
     length (nextGrid s') = length (nextGrid s) \<and>
     length (temperature s') = length (temperature s))"

text \<open>The writes into the next buffer that the rules make at a cell other than the one
  being processed: \<open>pd\<close> is the type of the processed cell, \<open>pc\<close> the type of the
  written cell in the current buffer, \<open>v\<close> the value written.\<close>

definition write_allowed :: "Particle \<Rightarrow> Particle \<Rightarrow> Particle \<Rightarrow> bool" where
  "write_allowed pd pc v =
    (((pc = Empty \<or> pc = Steam) \<and> v = pd) \<or>
     (pc = Water \<and> v = Steam \<and> (pd = Lava \<or> pd = Fire)) \<or>
     (pc = Oil \<and> v = Fire \<and> pd = Fire) \<or>
     ((pc = Sand \<or> pc = Ice) \<and> v = Empty \<and> pd = Acid))"

text \<open>The types a rule may overwrite at a cell other than its own.\<close>

definition writable :: "Particle \<Rightarrow> bool" where
  "writable p = (p = Empty \<or> p = Steam \<or> p = Water \<or> p = Oil \<or> p = Sand \<or> p = Ice)"

text \<open>\<open>s'\<close> comes from \<open>s\<close> by processing cell \<open>(x, y)\<close>: every other cell of the
  next buffer that changed was written as \<open>write_allowed\<close> says.\<close>

definition cell_writes :: "ParticleGrid \<Rightarrow> int \<Rightarrow> int \<Rightarrow> ParticleGrid \<Rightarrow> bool" where
  "cell_writes s x y s' =
    (same_frame s s' \<and>
     (\<forall>a b. (a, b) \<noteq> (x, y) \<longrightarrow> GetNext s' a b \<noteq> GetNext s a b \<longrightarrow>
        write_allowed (Get s x y) (Get s a b) (GetNext s' a b)))"

section \<open>Auxiliary notions of the rules\<close>

text \<open>The test under which \<^verbatim>\<open>AddParticle\<close> writes the cell at offset \<open>(dx, dy)\<close> of the
  centre \<open>(x, y)\<close>.\<close>

definition paints :: "ParticleGrid \<Rightarrow> int \<Rightarrow> int \<Rightarrow> Particle \<Rightarrow> int \<Rightarrow> int \<Rightarrow> int \<Rightarrow> bool" where
  "paints s x y p r dx dy =
    (dx * dx + dy * dy \<le> r * r \<and>
     0 < x + dx \<and> x + dx < width s - 1 \<and> 0 \<le> y + dy \<and> y + dy < height s - 2 \<and>
     (p = Empty \<or> Get s (x + dx) (y + dy) = Empty \<or> Get s (x + dx) (y + dy) = Steam))"

text \<open>The offsets at which the Acid case finds a neighbour to dissolve: inside the guard of
  the loop, and Sand or Ice in the current buffer.\<close>

definition acid_match :: "ParticleGrid \<Rightarrow> int \<Rightarrow> int \<Rightarrow> int \<times> int \<Rightarrow> bool" where
  "acid_match s x y d =
    (0 < x + fst d \<and> x + fst d < width s - 1 \<and> 0 < y + snd d \<and> y + snd d < height s - 2 \<and>
     (Get s (x + fst d) (y + snd d) = Sand \<or> Get s (x + fst d) (y + snd d) = Ice))"

text \<open>The lines of the text \<^verbatim>\<open>SaveToFile\<close> writes, without their newlines.\<close>

definition save_lines :: "ParticleGrid \<Rightarrow> string list" where
  "save_lines s =
    ''# Particle Simulator Save File'' #
    (''# Width: '' @ show_int (width s) @ '' Height: '' @ show_int (height s)) #
    map (\<lambda>y. map (\<lambda>x. GetSymbolForParticle (Get s x y)) [0..width s - 1]) [0..height s - 1]"





section \<open>Example states\<close>

text \<open>A running clock at speed 1, and the two constant sequences of draws.\<close>

definition demo_clock :: GameState where
  "demo_clock = \<lparr>isPaused = False, timeSpeed = 1, frameCounter = 0\<rparr>"

definition zero_draws :: "nat \<Rightarrow> nat" where
  "zero_draws = (\<lambda>_. 0)"

definition one_draws :: "nat \<Rightarrow> nat" where
  "one_draws = (\<lambda>_. 1)"

text \<open>A freshly constructed grid of 5 by 5 cells: a 3 by 3 interior inside the walls and
  the two floor rows.\<close>

definition demo_grid :: ParticleGrid where
  "demo_grid = ParticleGrid_new 5 5 demo_clock zero_draws 0"



text \<open>A 5 by 6 grid with an Acid cell at \<open>(2, 2)\<close> between two painted Ice cells, at
  \<open>(1, 1)\<close> and \<open>(3, 3)\<close>; every draw is 0.\<close>

definition acid_demo :: ParticleGrid where
  "acid_demo =
    AddParticle (AddParticle (AddParticle (ParticleGrid_new 5 6 demo_clock zero_draws 0)
      2 2 Acid Small) 1 1 Ice Small) 3 3 Ice Small"

text \<open>The two states in which the scan of a tick on \<open>acid_demo\<close> starts: every draw 0,
  and every draw 1.\<close>

definition acid_hit :: ParticleGrid where
  "acid_hit = scan_start acid_demo"

definition acid_miss :: ParticleGrid where
  "acid_miss = scan_start (acid_demo\<lparr>rand_seq := one_draws\<rparr>)"


text \<open>A 4 by 4 grid with a painted Steam cell at \<open>(1, 1)\<close> and a Water cell to its right,
  both on the floor; every draw is 0, so the Water tries the left side first.\<close>

definition steam_demo :: ParticleGrid where
  "steam_demo =
    AddParticle (AddParticle (ParticleGrid_new 4 4 demo_clock zero_draws 0)
      1 1 Steam Small) 2 1 Water Small"

text \<open>The states in which the scan of a tick starts, on \<open>steam_demo\<close> and on the same
  grid with the Water cell above the Steam cell instead.\<close>

definition steam_side :: ParticleGrid where
  "steam_side = scan_start steam_demo"

definition steam_below :: ParticleGrid where
  "steam_below =
    scan_start (AddParticle (AddParticle (ParticleGrid_new 4 4 demo_clock zero_draws 0)
      1 1 Steam Small) 1 0 Water Small)"

text \<open>A 5 by 5 grid with two painted Ice cells, at \<open>(2, 0)\<close> in the top row and at
  \<open>(2, 2)\<close> on the floor.\<close>

definition ice_demo :: ParticleGrid where
  "ice_demo = AddParticle (AddParticle demo_grid 2 0 Ice Small) 2 2 Ice Small"


section \<open>Basic facts about the accessors\<close>

lemma idx_less: "\<not> oob w h x y \<Longrightarrow> idx w x y < nat (w * h)"
proof -
  assume a: "\<not> oob w h x y"
  then have b: "0 \<le> x" "x < w" "0 \<le> y" "y + 1 \<le> h" by (auto simp: oob_def)
  have "y * w + x < (y + 1) * w" using b by (simp add: algebra_simps)
  also have "\<dots> \<le> h * w" using b by (intro mult_right_mono) auto
  finally have "y * w + x < w * h" by (simp add: mult.commute)
  moreover have "0 \<le> y * w + x" using b by simp
  ultimately show ?thesis by (simp add: idx_def)
qed

lemma idx_inj:
  assumes "\<not> oob w h x y" "\<not> oob w h x' y'"
  shows "(idx w x y = idx w x' y') = (x = x' \<and> y = y')"
proof
  assume e: "idx w x y = idx w x' y'"
  from assms have b: "0 \<le> x" "x < w" "0 \<le> y" "0 \<le> x'" "x' < w" "0 \<le> y'"
    by (auto simp: oob_def)
  then have "0 \<le> y * w + x" "0 \<le> y' * w + x'" by simp_all
  with e have eq: "y * w + x = y' * w + x'" by (simp add: idx_def)
  have "(y * w + x) div w = y" "(y' * w + x') div w = y'" using b by simp_all
  with eq have "y = y'" by simp
  with eq show "x = x' \<and> y = y'" by simp
qed simp

lemma SetNext_fields [simp]:
  "grid (SetNext s x y p) = grid s"
  "temperature (SetNext s x y p) = temperature s"
  "width (SetNext s x y p) = width s"
  "height (SetNext s x y p) = height s"
  "gameState (SetNext s x y p) = gameState s"
  "rand_seq (SetNext s x y p) = rand_seq s"
  "rand_pos (SetNext s x y p) = rand_pos s"
  "length (nextGrid (SetNext s x y p)) = length (nextGrid s)"
  by (simp_all add: SetNext_def)

lemma SetTemperature_fields [simp]:
  "grid (SetTemperature s x y t) = grid s"
  "nextGrid (SetTemperature s x y t) = nextGrid s"
  "width (SetTemperature s x y t) = width s"
  "height (SetTemperature s x y t) = height s"
  "gameState (SetTemperature s x y t) = gameState s"
  "rand_seq (SetTemperature s x y t) = rand_seq s"
  "rand_pos (SetTemperature s x y t) = rand_pos s"
  "length (temperature (SetTemperature s x y t)) = length (temperature s)"
  by (simp_all add: SetTemperature_def)

lemma rand_adv_fields [simp]:
  "grid (rand_adv s) = grid s"
  "nextGrid (rand_adv s) = nextGrid s"
  "temperature (rand_adv s) = temperature s"
  "width (rand_adv s) = width s"
  "height (rand_adv s) = height s"
  "gameState (rand_adv s) = gameState s"
  "rand_seq (rand_adv s) = rand_seq s"
  "rand_pos (rand_adv s) = Suc (rand_pos s)"
  by (simp_all add: rand_adv_def)

lemma Set_fields [simp]:
  "nextGrid (Set s x y p) = nextGrid s"
  "temperature (Set s x y p) = temperature s"
  "width (Set s x y p) = width s"
  "height (Set s x y p) = height s"
  "gameState (Set s x y p) = gameState s"
  "rand_seq (Set s x y p) = rand_seq s"
  "rand_pos (Set s x y p) = rand_pos s"
  "length (grid (Set s x y p)) = length (grid s)"
  by (simp_all add: Set_def)

lemma well_formed_prims [simp]:
  "well_formed (SetNext s x y p) = well_formed s"
  "well_formed (SetTemperature s x y t) = well_formed s"
  "well_formed (rand_adv s) = well_formed s"
  "well_formed (Set s x y p) = well_formed s"
  by (simp_all add: well_formed_def)

lemma Get_prims [simp]:
  "Get (SetNext s x y p) a b = Get s a b"
  "Get (SetTemperature s x y t) a b = Get s a b"
  "Get (rand_adv s) a b = Get s a b"
  by (simp_all add: Get_def)

lemma GetNext_prims [simp]:
  "GetNext (SetTemperature s x y t) a b = GetNext s a b"
  "GetNext (rand_adv s) a b = GetNext s a b"
  "GetNext (Set s x y p) a b = GetNext s a b"
  by (simp_all add: GetNext_def)

lemma GetTemperature_prims [simp]:
  "GetTemperature (SetNext s x y p) a b = GetTemperature s a b"
  "GetTemperature (rand_adv s) a b = GetTemperature s a b"
  "GetTemperature (Set s x y p) a b = GetTemperature s a b"
  by (simp_all add: GetTemperature_def)

lemma GetNext_SetNext:
  "well_formed s \<Longrightarrow>
   GetNext (SetNext s x y p) a b =
     (if a = x \<and> b = y \<and> \<not> oob (width s) (height s) x y then p else GetNext s a b)"
  by (auto simp: GetNext_def SetNext_def well_formed_def idx_less idx_inj)

lemma GetTemperature_SetTemperature:
  "well_formed s \<Longrightarrow>
   GetTemperature (SetTemperature s x y t) a b =
     (if a = x \<and> b = y \<and> \<not> oob (width s) (height s) x y then t else GetTemperature s a b)"
  by (auto simp: GetTemperature_def SetTemperature_def well_formed_def idx_less idx_inj)

lemma Get_Set:
  "well_formed s \<Longrightarrow>
   Get (Set s x y p) a b =
     (if a = x \<and> b = y \<and> \<not> oob (width s) (height s) x y \<and>
         \<not> (y \<ge> height s - 2 \<or> x = 0 \<or> x = width s - 1) then p else Get s a b)"
  by (auto simp: Get_def Set_def well_formed_def idx_less idx_inj)

section \<open>Out-of-range access\<close>

text \<open>C9. For every coordinate pair outside \<open>[0, width) \<times> [0, height)\<close>, \<open>Get\<close> returns
  Stone, \<open>GetTemperature\<close> returns the ambient value 20, and \<open>Set\<close> and
  \<open>SetTemperature\<close> return the state they were given, every cell and temperature
  unchanged. The four accessors are total: none of them has an error result.\<close>

theorem out_of_range_access:
  assumes "x < 0 \<or> width s \<le> x \<or> y < 0 \<or> height s \<le> y"
  shows "Get s x y = Stone \<and> GetTemperature s x y = 20 \<and>
         Set s x y p = s \<and> SetTemperature s x y t = s"
  using assms by (auto simp: Get_def GetTemperature_def Set_def SetTemperature_def oob_def)

theorem out_of_range_access_witness:
  "(- 1 < (0::int) \<or> width demo_grid \<le> - 1 \<or> (0::int) < 0 \<or> height demo_grid \<le> 0) \<and>
   Get demo_grid (- 1) 0 = Stone \<and> GetTemperature demo_grid (- 1) 0 = 20 \<and>
   Set demo_grid (- 1) 0 Sand = demo_grid \<and> SetTemperature demo_grid (- 1) 0 55 = demo_grid"
  using out_of_range_access [of "- 1" demo_grid 0 Sand 55] by simp

section \<open>Stamping the ground\<close>

lemma nth_update_gen: "xs[i := v] ! k = (if i = k \<and> i < length xs then v else xs ! k)"
  by (cases "i < length xs") (auto simp: nth_list_update list_update_beyond)

lemma foldl_stamp_length:
  "length (foldl (\<lambda>g a. (g[i a := v])[j a := v]) g as) = length g"
  by (induction as arbitrary: g) auto

lemma foldl_stamp_nth:
  "k < length g \<Longrightarrow>
   foldl (\<lambda>g a. (g[i a := v])[j a := v]) g as ! k =
     (if \<exists>a \<in> set as. k = i a \<or> k = j a then v else g ! k)"
proof (induction as arbitrary: g)
  case Nil
  then show ?case by simp
next
  case (Cons a as)
  have "k < length ((g[i a := v])[j a := v])" using Cons.prems by simp
  from Cons.IH [OF this] show ?case using Cons.prems
    by (auto simp: nth_update_gen)
qed

lemma ground_row_fun: "ground_row w h = (\<lambda>g x. (g[idx w x (h - 1) := Stone])[idx w x (h - 2) := Stone])"
  by (intro ext) (simp add: ground_row_def)

lemma ground_wall_fun: "ground_wall w = (\<lambda>g y. (g[idx w 0 y := Stone])[idx w (w - 1) y := Stone])"
  by (intro ext) (simp add: ground_wall_def)

lemma stamp_ground_length [simp]: "length (stamp_ground w h g) = length g"
  by (simp add: stamp_ground_def ground_row_fun ground_wall_fun foldl_stamp_length)

lemma stamp_ground_nth:
  assumes "1 \<le> w" "2 \<le> h" "length g = nat (w * h)" "\<not> oob w h x y"
  shows "stamp_ground w h g ! idx w x y =
    (if y \<ge> h - 2 \<or> x = 0 \<or> x = w - 1 then Stone else g ! idx w x y)"
proof -
  have k: "idx w x y < length g" using assms by (simp add: idx_less)
  have b: "0 \<le> x" "x < w" "0 \<le> y" "y < h" using assms(4) by (auto simp: oob_def)
  have rows: "(\<exists>a \<in> set [0..w - 1]. idx w x y = idx w a (h - 1) \<or> idx w x y = idx w a (h - 2))
      = (y \<ge> h - 2)" (is "?L = ?R")
  proof
    assume ?L
    then obtain a where a: "0 \<le> a" "a < w"
      and e: "idx w x y = idx w a (h - 1) \<or> idx w x y = idx w a (h - 2)" by auto
    have "\<not> oob w h a (h - 1)" "\<not> oob w h a (h - 2)" using a assms by (auto simp: oob_def)
    with e assms(4) show ?R by (auto simp: idx_inj)
  next
    assume ?R
    then have "y = h - 1 \<or> y = h - 2" using b by auto
    then show ?L using b by auto
  qed
  have walls: "(\<exists>a \<in> set [0..h - 2]. idx w x y = idx w 0 a \<or> idx w x y = idx w (w - 1) a)
      = ((x = 0 \<or> x = w - 1) \<and> y \<le> h - 2)" (is "?L = ?R")
  proof
    assume ?L
    then obtain a where a: "0 \<le> a" "a \<le> h - 2"
      and e: "idx w x y = idx w 0 a \<or> idx w x y = idx w (w - 1) a" by auto
    have "\<not> oob w h 0 a" "\<not> oob w h (w - 1) a" using a assms by (auto simp: oob_def)
    with e assms(4) a show ?R by (auto simp: idx_inj)
  next
    assume ?R
    then show ?L using b by auto
  qed
  have "idx w x y < length (foldl (ground_row w h) g [0..w - 1])"
    using k by (simp add: ground_row_fun foldl_stamp_length)
  then have "stamp_ground w h g ! idx w x y =
      (if (x = 0 \<or> x = w - 1) \<and> y \<le> h - 2 then Stone
       else foldl (ground_row w h) g [0..w - 1] ! idx w x y)"
    unfolding stamp_ground_def
    by (subst ground_wall_fun) (simp only: foldl_stamp_nth walls)
  also have "foldl (ground_row w h) g [0..w - 1] ! idx w x y =
      (if y \<ge> h - 2 then Stone else g ! idx w x y)"
    using k by (subst ground_row_fun) (simp only: foldl_stamp_nth rows)
  finally show ?thesis by auto
qed

lemma CreateGround_fields [simp]:
  "nextGrid (CreateGround s) = nextGrid s"
  "temperature (CreateGround s) = temperature s"
  "width (CreateGround s) = width s"
  "height (CreateGround s) = height s"
  "gameState (CreateGround s) = gameState s"
  "rand_seq (CreateGround s) = rand_seq s"
  "rand_pos (CreateGround s) = rand_pos s"
  "length (grid (CreateGround s)) = length (grid s)"
  by (simp_all add: CreateGround_def)

lemma CreateGroundNext_fields [simp]:
  "grid (CreateGroundNext s) = grid s"
  "temperature (CreateGroundNext s) = temperature s"
  "width (CreateGroundNext s) = width s"
  "height (CreateGroundNext s) = height s"
  "gameState (CreateGroundNext s) = gameState s"
  "rand_seq (CreateGroundNext s) = rand_seq s"
  "rand_pos (CreateGroundNext s) = rand_pos s"
  "length (nextGrid (CreateGroundNext s)) = length (nextGrid s)"
  by (simp_all add: CreateGroundNext_def)

lemma well_formed_ground [simp]:
  "well_formed (CreateGround s) = well_formed s"
  "well_formed (CreateGroundNext s) = well_formed s"
  by (simp_all add: well_formed_def)

lemma Get_CreateGround:
  "well_formed s \<Longrightarrow> Get (CreateGround s) x y = (if boundary s x y then Stone else Get s x y)"
  by (auto simp: Get_def CreateGround_def boundary_def well_formed_def stamp_ground_nth)

lemma GetNext_CreateGroundNext:
  "well_formed s \<Longrightarrow>
   GetNext (CreateGroundNext s) x y = (if boundary s x y then Stone else GetNext s x y)"
  by (auto simp: GetNext_def CreateGroundNext_def boundary_def well_formed_def stamp_ground_nth)

lemma Get_CreateGroundNext [simp]: "Get (CreateGroundNext s) x y = Get s x y"
  by (simp add: Get_def)

section \<open>Persistence: what a saved file loads as\<close>

lemma load_lines_skip:
  "\<forall>l \<in> set ls. l = [] \<or> hd l = CHR ''#'' \<Longrightarrow> load_lines s y ls = s"
  by (induction ls arbitrary: y) auto

lemma getlines_line:
  "newline \<notin> set l \<Longrightarrow> getlines acc (l @ newline # rest) = (rev acc @ l) # getlines [] rest"
  by (induction l arbitrary: acc) auto

lemma getlines_concat:
  "\<forall>l \<in> set ls. newline \<notin> set l \<Longrightarrow>
   getlines [] (concat (map (\<lambda>l. l @ [newline]) ls)) = ls"
  by (induction ls) (auto simp: getlines_line)

lemma digit_char_not_newline: "d < 10 \<Longrightarrow> newline \<noteq> digit_char d"
proof -
  assume "d < 10"
  then have "d \<in> {0, 1, 2, 3, 4, 5, 6, 7, 8, 9}" by auto
  then show ?thesis by (auto simp: digit_char_def newline_def)
qed

lemma show_nat_no_newline: "newline \<notin> set (show_nat n)"
proof (induction n rule: show_nat.induct)
  case (1 n)
  show ?case
  proof (cases "n < 10")
    case True
    then show ?thesis by (subst show_nat.simps) (simp add: digit_char_not_newline)
  next
    case False
    then have "newline \<notin> set (show_nat (n div 10))" using 1 by simp
    moreover have "newline \<noteq> digit_char (n mod 10)" by (rule digit_char_not_newline) simp
    ultimately show ?thesis using False by (subst show_nat.simps) auto
  qed
qed

lemma show_int_no_newline: "newline \<notin> set (show_int i)"
  by (simp add: show_int_def show_nat_no_newline) (simp add: newline_def)

lemma symbol_not_newline: "newline \<noteq> GetSymbolForParticle p"
  by (cases p) (simp_all add: GetSymbolForParticle_def colors_def newline_def)

lemma symbol_Stone: "GetSymbolForParticle Stone = CHR ''#''"
  by (simp add: GetSymbolForParticle_def colors_def)


lemma SaveToFile_lines: "SaveToFile s = concat (map (\<lambda>l. l @ [newline]) (save_lines s))"
proof -
  have "save_row s = (\<lambda>y. map (\<lambda>x. GetSymbolForParticle (Get s x y)) [0..width s - 1] @ [newline])"
    by (rule ext) (simp add: save_row_def)
  then show ?thesis by (simp add: SaveToFile_def save_lines_def comp_def)
qed

lemma save_lines_no_newline: "\<forall>l \<in> set (save_lines s). newline \<notin> set l"
  by (auto simp: save_lines_def show_int_no_newline symbol_not_newline) (simp_all add: newline_def)

lemma save_lines_comment:
  assumes "1 \<le> width s" "\<forall>y. 0 \<le> y \<and> y < height s \<longrightarrow> Get s 0 y = Stone"
  shows "\<forall>l \<in> set (save_lines s). l = [] \<or> hd l = CHR ''#''"
proof -
  have "[0..width s - 1] = 0 # [0 + 1..width s - 1]" using assms(1) by (intro upto_rec1) simp
  then show ?thesis using assms(2) by (auto simp: save_lines_def symbol_Stone)
qed

text \<open>Every row \<open>SaveToFile\<close> writes starts with the symbol of the cell in column 0.
  When that column is Stone, as it is in every grid the program builds, the symbol is
  \<open>#\<close>, the loader takes each row for a comment, and the file loads as the cleared
  grid.\<close>

lemma load_of_save:
  assumes "1 \<le> width s" "\<forall>y. 0 \<le> y \<and> y < height s \<longrightarrow> Get s 0 y = Stone"
  shows "LoadFromFile t (Some (SaveToFile s)) = Clear t"
  using save_lines_comment [OF assms]
  by (simp add: LoadFromFile_def SaveToFile_lines getlines_concat save_lines_no_newline
      load_lines_skip)

text \<open>C1. The claim: saving a grid and loading the file into a cleared grid of the same
  dimensions gives back the cell type at every non-boundary position. Evaluated on the
  5 by 5 grid with one Sand cell at \<open>(1, 1)\<close>: the cell is Sand before saving, the text
  written has the Sand symbol in its row, and the cell is Empty after loading, because the
  row starts with the \<open>#\<close> of the wall in column 0.\<close>

theorem save_load_loses_sand:
  "Get (Set demo_grid 1 1 Sand) 1 1 = Sand \<and>
   getlines [] (SaveToFile (Set demo_grid 1 1 Sand)) =
     [''# Particle Simulator Save File'', ''# Width: 5 Height: 5'',
      ''#   #'', ''#S  #'', ''#   #'', ''#####'', ''#####''] \<and>
   Get (LoadFromFile (Clear demo_grid) (Some (SaveToFile (Set demo_grid 1 1 Sand)))) 1 1 = Empty"
  by code_simp

section \<open>The write footprint of the rules\<close>

lemma same_frame_Get: "same_frame s s' \<Longrightarrow> Get s' a b = Get s a b"
  by (simp add: same_frame_def Get_def)

lemma same_frame_wf: "same_frame s s' \<Longrightarrow> well_formed s' = well_formed s"
  by (simp add: same_frame_def well_formed_def)

lemma cw_refl: "cell_writes s x y s"
  by (simp add: cell_writes_def same_frame_def)

lemma cw_Get: "cell_writes s x y s' \<Longrightarrow> Get s' a b = Get s a b"
  by (simp add: cell_writes_def same_frame_Get)

lemma cw_wf: "cell_writes s x y s' \<Longrightarrow> well_formed s \<Longrightarrow> well_formed s'"
  by (auto simp: cell_writes_def same_frame_wf)

lemma cw_trans:
  "cell_writes s x y s1 \<Longrightarrow> cell_writes s1 x y s2 \<Longrightarrow> cell_writes s x y s2"
proof -
  assume 1: "cell_writes s x y s1" and 2: "cell_writes s1 x y s2"
  have g: "Get s1 a b = Get s a b" for a b using 1 by (rule cw_Get)
  show ?thesis unfolding cell_writes_def
  proof (intro conjI allI impI)
    show "same_frame s s2" using 1 2 by (simp add: cell_writes_def same_frame_def)
  next
    fix a b
    assume ne: "(a, b) \<noteq> (x, y)" and d: "GetNext s2 a b \<noteq> GetNext s a b"
    show "write_allowed (Get s x y) (Get s a b) (GetNext s2 a b)"
    proof (cases "GetNext s2 a b = GetNext s1 a b")
      case True
      then have "GetNext s1 a b \<noteq> GetNext s a b" using d by simp
      with 1 ne True show ?thesis by (auto simp: cell_writes_def)
    next
      case False
      with 2 ne have "write_allowed (Get s1 x y) (Get s1 a b) (GetNext s2 a b)"
        by (auto simp: cell_writes_def)
      then show ?thesis by (simp add: g)
    qed
  qed
qed

lemma cw_rand_adv: "cell_writes s x y s' \<Longrightarrow> cell_writes s x y (rand_adv s')"
  by (simp add: cell_writes_def same_frame_def)

lemma cw_SetTemperature: "cell_writes s x y s' \<Longrightarrow> cell_writes s x y (SetTemperature s' a b t)"
  by (simp add: cell_writes_def same_frame_def)

lemma cw_SetNext_self:
  "cell_writes s x y s' \<Longrightarrow> well_formed s \<Longrightarrow> cell_writes s x y (SetNext s' x y p)"
  by (frule (1) cw_wf) (auto simp: cell_writes_def same_frame_def GetNext_SetNext)

lemma cw_SetNext_other:
  "cell_writes s x y s' \<Longrightarrow> well_formed s \<Longrightarrow> write_allowed (Get s x y) (Get s a b) p \<Longrightarrow>
   cell_writes s x y (SetNext s' a b p)"
  by (frule (1) cw_wf) (auto simp: cell_writes_def same_frame_def GetNext_SetNext)

lemma find_SomeD: "find P xs = Some a \<Longrightarrow> P a"
  by (induction xs) (auto split: if_splits)

lemma cw_ReplaceNeighbor:
  "cell_writes s x y s' \<Longrightarrow> well_formed s \<Longrightarrow> write_allowed (Get s x y) target repl \<Longrightarrow>
   cell_writes s x y (ReplaceNeighbor s' x y target repl)"
  unfolding ReplaceNeighbor_def
  by (auto split: option.splits dest!: find_SomeD simp: cw_Get intro!: cw_SetNext_other)

lemma cw_leave_origin:
  "cell_writes s x y s' \<Longrightarrow> well_formed s \<Longrightarrow> cell_writes s x y (leave_origin s' x y a b)"
  by (simp add: leave_origin_def cw_SetNext_self)

lemmas cw_intros = cw_rand_adv cw_SetTemperature cw_SetNext_self cw_leave_origin cw_refl

lemma cw_UpdateSand:
  "well_formed s \<Longrightarrow> cell_writes s x y s' \<Longrightarrow> Get s x y = Sand \<Longrightarrow>
   cell_writes s x y (UpdateSand s' x y)"
  unfolding UpdateSand_def CanMoveDown_def Let_def
  by (auto simp: cw_Get write_allowed_def intro!: cw_intros cw_SetNext_other)

lemma cw_flow_liquid:
  "well_formed s \<Longrightarrow> cell_writes s x y s' \<Longrightarrow> Get s x y = p \<Longrightarrow>
   cell_writes s x y (flow_liquid p s' x y)"
  unfolding flow_liquid_def CanMoveDown_def CanMoveSide_def Let_def
  by (auto simp: cw_Get write_allowed_def intro!: cw_intros cw_SetNext_other)

lemma cw_UpdateOil:
  "well_formed s \<Longrightarrow> cell_writes s x y s' \<Longrightarrow> Get s x y = Oil \<Longrightarrow>
   cell_writes s x y (UpdateOil s' x y)"
  unfolding UpdateOil_def Let_def
  by (auto intro!: cw_flow_liquid cw_intros)

lemma cw_UpdateLava:
  "well_formed s \<Longrightarrow> cell_writes s x y s' \<Longrightarrow> Get s x y = Lava \<Longrightarrow>
   cell_writes s x y (UpdateLava s' x y)"
  unfolding UpdateLava_def CanMoveDown_def CanMoveSide_def Let_def
  by (auto simp: cw_Get write_allowed_def intro!: cw_intros cw_SetNext_other)

lemma cw_UpdateSteam:
  "well_formed s \<Longrightarrow> cell_writes s x y s' \<Longrightarrow> Get s x y = Steam \<Longrightarrow>
   cell_writes s x y (UpdateSteam s' x y)"
  unfolding UpdateSteam_def Let_def
  by (auto simp: cw_Get write_allowed_def intro!: cw_intros cw_SetNext_other)

lemma cw_UpdateFire:
  "well_formed s \<Longrightarrow> cell_writes s x y s' \<Longrightarrow> Get s x y = Fire \<Longrightarrow>
   cell_writes s x y (UpdateFire s' x y)"
  unfolding UpdateFire_def fire_rise_def fire_spread_def Let_def
  by (auto simp: cw_Get write_allowed_def intro!: cw_intros cw_SetNext_other)

lemma cw_UpdateSmoke:
  "well_formed s \<Longrightarrow> cell_writes s x y s' \<Longrightarrow> Get s x y = Smoke \<Longrightarrow>
   cell_writes s x y (UpdateSmoke s' x y)"
  unfolding UpdateSmoke_def smoke_move_def smoke_disperse_def Let_def
  by (auto simp: cw_Get write_allowed_def intro!: cw_intros cw_SetNext_other)

lemma cw_move_cell:
  "well_formed s \<Longrightarrow> cell_writes s x y s' \<Longrightarrow> Get s x y = p \<Longrightarrow>
   cell_writes s x y (move_cell p s' x y)"
  unfolding move_cell_def UpdateWater_def UpdateAcid_def UpdateIce_def
  by (cases p)
     (auto intro: cw_UpdateSand cw_flow_liquid cw_UpdateOil cw_UpdateLava cw_UpdateSteam
        cw_UpdateFire cw_UpdateSmoke)

lemma cw_acid_scan:
  "well_formed s \<Longrightarrow> cell_writes s x y s' \<Longrightarrow> Get s x y = Acid \<Longrightarrow>
   cell_writes s x y (snd (acid_scan s' x y ds))"
proof (induction ds arbitrary: s')
  case Nil
  then show ?case by simp
next
  case (Cons d ds)
  obtain dx dy where d: "d = (dx, dy)" by (cases d)
  show ?case using Cons.prems unfolding d
    by (auto simp: Let_def cw_Get write_allowed_def
        intro!: Cons.IH cw_intros cw_SetNext_other)
qed

lemma cw_ProcessReactions:
  "well_formed s \<Longrightarrow> cell_writes s x y (snd (ProcessReactions s x y))"
  unfolding ProcessReactions_def Let_def
  by (cases "Get s x y")
     (auto simp: write_allowed_def
        intro!: cw_intros cw_SetNext_other cw_ReplaceNeighbor cw_acid_scan)

lemma cw_Update_cell:
  "well_formed s \<Longrightarrow> cell_writes s x y (Update_cell s (x, y))"
  unfolding Update_cell_def Let_def
  using cw_ProcessReactions [of s x y]
  by (auto split: prod.splits bool.splits simp: cw_refl intro: cw_move_cell)

section \<open>The scan and the tick\<close>

lemma Update_cases:
  "Update s =
    (if isPaused (gameState s) then s
     else if performs_tick s then tick (count_frame s) else count_frame s)"
  by (simp add: Update_def performs_tick_def count_frame_def skipFrames_def Let_def)

lemma foldl_Update_cell_frame:
  "well_formed s \<Longrightarrow> same_frame s (foldl Update_cell s cs)"
proof (induction cs arbitrary: s)
  case Nil
  then show ?case by (simp add: same_frame_def)
next
  case (Cons c cs)
  obtain x y where c: "c = (x, y)" by (cases c)
  have cw: "cell_writes s x y (Update_cell s (x, y))" using Cons.prems by (rule cw_Update_cell)
  then have "well_formed (Update_cell s (x, y))" using Cons.prems by (rule cw_wf)
  from Cons.IH [OF this] cw show ?case by (simp add: c cell_writes_def same_frame_def)
qed

lemma write_allowed_writable: "write_allowed pd pc v \<Longrightarrow> writable pc"
  by (auto simp: write_allowed_def writable_def)

lemma foldl_Update_cell_keeps:
  "well_formed s \<Longrightarrow> (a, b) \<notin> set cs \<Longrightarrow> \<not> writable (Get s a b) \<Longrightarrow>
   GetNext (foldl Update_cell s cs) a b = GetNext s a b"
proof (induction cs arbitrary: s)
  case Nil
  then show ?case by simp
next
  case (Cons c cs)
  obtain x y where c: "c = (x, y)" by (cases c)
  have cw: "cell_writes s x y (Update_cell s (x, y))" using Cons.prems(1) by (rule cw_Update_cell)
  have wf: "well_formed (Update_cell s (x, y))" using cw Cons.prems(1) by (rule cw_wf)
  have g: "Get (Update_cell s (x, y)) a b = Get s a b" using cw by (rule cw_Get)
  have ne: "(a, b) \<noteq> (x, y)" using Cons.prems(2) c by auto
  have "GetNext (Update_cell s (x, y)) a b = GetNext s a b"
  proof (rule ccontr)
    assume "GetNext (Update_cell s (x, y)) a b \<noteq> GetNext s a b"
    with cw ne have "write_allowed (Get s x y) (Get s a b) (GetNext (Update_cell s (x, y)) a b)"
      by (auto simp: cell_writes_def)
    then show False using Cons.prems(3) by (auto dest: write_allowed_writable)
  qed
  moreover have "GetNext (foldl Update_cell (Update_cell s (x, y)) cs) a b =
      GetNext (Update_cell s (x, y)) a b"
    using Cons.prems by (intro Cons.IH wf) (auto simp: g)
  ultimately show ?case by (simp add: c)
qed

lemma UpdateTemperature_cell_frame:
  "grid (UpdateTemperature_cell s c) = grid s \<and>
   nextGrid (UpdateTemperature_cell s c) = nextGrid s \<and>
   width (UpdateTemperature_cell s c) = width s \<and>
   height (UpdateTemperature_cell s c) = height s \<and>
   gameState (UpdateTemperature_cell s c) = gameState s \<and>
   rand_seq (UpdateTemperature_cell s c) = rand_seq s \<and>
   rand_pos (UpdateTemperature_cell s c) = rand_pos s \<and>
   length (temperature (UpdateTemperature_cell s c)) = length (temperature s)"
  by (simp add: UpdateTemperature_cell_def Let_def split: prod.splits)

lemma foldl_UpdateTemperature_cell_frame:
  "grid (foldl UpdateTemperature_cell s cs) = grid s \<and>
   nextGrid (foldl UpdateTemperature_cell s cs) = nextGrid s \<and>
   width (foldl UpdateTemperature_cell s cs) = width s \<and>
   height (foldl UpdateTemperature_cell s cs) = height s \<and>
   gameState (foldl UpdateTemperature_cell s cs) = gameState s \<and>
   rand_seq (foldl UpdateTemperature_cell s cs) = rand_seq s \<and>
   rand_pos (foldl UpdateTemperature_cell s cs) = rand_pos s \<and>
   length (temperature (foldl UpdateTemperature_cell s cs)) = length (temperature s)"
  by (induction cs arbitrary: s) (simp_all add: UpdateTemperature_cell_frame)

lemma UpdateTemperature_fields [simp]:
  "grid (UpdateTemperature s) = grid s"
  "nextGrid (UpdateTemperature s) = nextGrid s"
  "width (UpdateTemperature s) = width s"
  "height (UpdateTemperature s) = height s"
  "gameState (UpdateTemperature s) = gameState s"
  "rand_seq (UpdateTemperature s) = rand_seq s"
  "rand_pos (UpdateTemperature s) = rand_pos s"
  "length (temperature (UpdateTemperature s)) = length (temperature s)"
  by (simp_all add: UpdateTemperature_def foldl_UpdateTemperature_cell_frame)

lemma tick_scan: "tick s = swap_grids (UpdateTemperature (scan_end s))"
  by (simp add: tick_def scan_end_def scan_start_def)

lemma scan_start_wf: "well_formed s \<Longrightarrow> well_formed (scan_start s)"
  by (simp add: scan_start_def) (simp add: well_formed_def)

lemma scan_start_fields [simp]:
  "grid (scan_start s) = grid s" "width (scan_start s) = width s"
  "height (scan_start s) = height s" "gameState (scan_start s) = gameState s"
  "temperature (scan_start s) = temperature s"
  "rand_seq (scan_start s) = rand_seq s" "rand_pos (scan_start s) = rand_pos s"
  by (simp_all add: scan_start_def)

lemma Get_scan_start [simp]: "Get (scan_start s) a b = Get s a b"
  by (simp add: Get_def)

lemma GetNext_scan_start:
  "well_formed s \<Longrightarrow> GetNext (scan_start s) a b = (if boundary s a b then Stone else Get s a b)"
proof -
  assume wf: "well_formed s"
  then have "well_formed (s\<lparr>nextGrid := grid s\<rparr>)" by (simp add: well_formed_def)
  then show ?thesis
    by (simp add: scan_start_def GetNext_CreateGroundNext) (simp add: boundary_def GetNext_def Get_def)
qed

lemma scan_end_frame: "well_formed s \<Longrightarrow> same_frame (scan_start s) (scan_end s)"
  unfolding scan_end_def by (intro foldl_Update_cell_frame scan_start_wf)

lemma scan_end_fields:
  assumes "well_formed s"
  shows "grid (scan_end s) = grid s" "width (scan_end s) = width s"
    "height (scan_end s) = height s" "gameState (scan_end s) = gameState s"
    "length (nextGrid (scan_end s)) = length (grid s)"
    "length (temperature (scan_end s)) = length (temperature s)"
  using scan_end_frame [OF assms]
  by (simp_all add: same_frame_def) (simp add: scan_start_def CreateGroundNext_def)

lemma tick_fields:
  assumes "well_formed s"
  shows "nextGrid (tick s) = grid s" "grid (tick s) = nextGrid (scan_end s)"
    "width (tick s) = width s" "height (tick s) = height s" "gameState (tick s) = gameState s"
  by (simp_all add: tick_scan swap_grids_def scan_end_fields [OF assms])

lemma tick_wf: "well_formed s \<Longrightarrow> well_formed (tick s)"
  by (simp add: well_formed_def tick_fields)
     (simp add: tick_scan swap_grids_def scan_end_fields well_formed_def)

lemma Get_tick: "well_formed s \<Longrightarrow> Get (tick s) a b = GetNext (scan_end s) a b"
  by (simp add: Get_def GetNext_def tick_fields scan_end_fields)

lemma GetNext_tick: "well_formed s \<Longrightarrow> GetNext (tick s) a b = Get s a b"
  by (simp add: Get_def GetNext_def tick_fields)

lemma scan_cells_iff:
  "(a, b) \<in> set (scan_cells w h) = (1 \<le> a \<and> a \<le> w - 2 \<and> 0 \<le> b \<and> b \<le> h - 3)"
  by (auto simp: scan_cells_def image_iff)

lemma boundary_not_scanned: "boundary s a b \<Longrightarrow> (a, b) \<notin> set (scan_cells (width s) (height s))"
  by (auto simp: scan_cells_iff boundary_def)

lemma tick_boundary:
  assumes "well_formed s" "boundary s a b" "Get s a b = Stone"
  shows "Get (tick s) a b = Stone"
proof -
  have "GetNext (scan_end s) a b = GetNext (scan_start s) a b"
    unfolding scan_end_def using assms
    by (intro foldl_Update_cell_keeps scan_start_wf boundary_not_scanned)
       (simp_all add: writable_def)
  then show ?thesis using assms by (simp add: Get_tick GetNext_scan_start)
qed

section \<open>The boundary invariant\<close>

lemma grid_inv_same_next:
  assumes "grid_inv s" "well_formed s'" "width s' = width s" "height s' = height s"
    "nextGrid s' = nextGrid s" "\<And>x y. boundary s x y \<Longrightarrow> Get s' x y = Get s x y"
  shows "grid_inv s'"
  using assms unfolding grid_inv_def
  by (auto simp: boundary_def GetNext_def next_all_empty_def)

lemma Clear_fields [simp]:
  "width (Clear s) = width s" "height (Clear s) = height s"
  "gameState (Clear s) = gameState s" "rand_seq (Clear s) = rand_seq s"
  "rand_pos (Clear s) = rand_pos s"
  "nextGrid (Clear s) = replicate (nat (width s * height s)) Empty"
  "temperature (Clear s) = replicate (nat (width s * height s)) 20"
  "length (grid (Clear s)) = nat (width s * height s)"
  by (simp_all add: Clear_def)

lemma Clear_wf: "1 \<le> width s \<Longrightarrow> 2 \<le> height s \<Longrightarrow> well_formed (Clear s)"
  by (simp add: well_formed_def)

lemma Get_Clear:
  assumes "1 \<le> width s" "2 \<le> height s" "\<not> oob (width s) (height s) x y"
  shows "Get (Clear s) x y = (if boundary s x y then Stone else Empty)"
proof -
  let ?s = "s\<lparr>grid := replicate (nat (width s * height s)) Empty,
         nextGrid := replicate (nat (width s * height s)) Empty,
         temperature := replicate (nat (width s * height s)) 20\<rparr>"
  have wf: "well_formed ?s" using assms by (simp add: well_formed_def)
  have "Get ?s x y = Empty" using assms by (simp add: Get_def idx_less)
  moreover have "boundary ?s x y = boundary s x y" by (simp add: boundary_def)
  ultimately show ?thesis unfolding Clear_def using Get_CreateGround [OF wf, of x y] by simp
qed

lemma Clear_inv: "1 \<le> width s \<Longrightarrow> 2 \<le> height s \<Longrightarrow> grid_inv (Clear s)"
  unfolding grid_inv_def
  by (auto simp: Clear_wf next_all_empty_def Get_Clear boundary_def)

lemma CreateGround_inv: "grid_inv s \<Longrightarrow> grid_inv (CreateGround s)"
  by (rule grid_inv_same_next) (auto simp: grid_inv_def Get_CreateGround)

lemma new_inv: "1 \<le> w \<Longrightarrow> 2 \<le> h \<Longrightarrow> grid_inv (ParticleGrid_new w h st rs rp)"
  unfolding ParticleGrid_new_def by (intro CreateGround_inv Clear_inv) simp_all

lemma Set_inv: "grid_inv s \<Longrightarrow> grid_inv (Set s x y p)"
  by (rule grid_inv_same_next) (auto simp: grid_inv_def Get_Set boundary_def)

lemma SetTemperature_inv: "grid_inv s \<Longrightarrow> grid_inv (SetTemperature s x y t)"
  by (rule grid_inv_same_next) (auto simp: grid_inv_def)

lemma AddParticle_at_inv: "grid_inv s \<Longrightarrow> grid_inv (AddParticle_at x y p r s d)"
  by (cases d) (simp add: AddParticle_at_def Let_def Set_inv SetTemperature_inv)

lemma foldl_inv:
  "(\<And>s a. P s \<Longrightarrow> P (f s a)) \<Longrightarrow> P s \<Longrightarrow> P (foldl f s as)"
  by (induction as arbitrary: s) auto

lemma AddParticle_inv: "grid_inv s \<Longrightarrow> grid_inv (AddParticle s x y p b)"
  unfolding AddParticle_def Let_def by (rule foldl_inv) (rule AddParticle_at_inv)

lemma load_cell_inv: "grid_inv s \<Longrightarrow> grid_inv (load_cell y line s x)"
  by (simp add: load_cell_def Let_def Set_inv)

lemma load_line_inv: "grid_inv s \<Longrightarrow> grid_inv (load_line s y line)"
  unfolding load_line_def by (rule foldl_inv) (rule load_cell_inv)

lemma load_lines_inv: "grid_inv s \<Longrightarrow> grid_inv (load_lines s y ls)"
  by (induction ls arbitrary: s y) (auto simp: load_line_inv)

lemma LoadFromFile_inv:
  assumes "grid_inv s"
  shows "grid_inv (LoadFromFile s f)"
proof (cases f)
  case None
  then show ?thesis using assms by (simp add: LoadFromFile_def)
next
  case (Some content)
  from assms have "grid_inv (Clear s)" by (intro Clear_inv) (auto simp: grid_inv_def well_formed_def)
  then show ?thesis by (simp add: LoadFromFile_def Some load_lines_inv)
qed

lemma count_frame_inv: "grid_inv s \<Longrightarrow> grid_inv (count_frame s)"
  by (rule grid_inv_same_next) (auto simp: grid_inv_def count_frame_def well_formed_def Get_def)

lemma tick_inv:
  assumes "grid_inv s"
  shows "grid_inv (tick s)"
proof -
  have wf: "well_formed s" and st: "\<And>x y. boundary s x y \<Longrightarrow> Get s x y = Stone"
    using assms by (auto simp: grid_inv_def)
  have b: "boundary (tick s) x y = boundary s x y" for x y
    by (simp add: boundary_def tick_fields [OF wf])
  show ?thesis unfolding grid_inv_def
    by (auto simp: b tick_wf [OF wf] tick_boundary [OF wf] GetNext_tick [OF wf] st)
qed

lemma Update_inv: "grid_inv s \<Longrightarrow> grid_inv (Update s)"
  by (simp add: Update_cases tick_inv count_frame_inv)

lemma reachable_inv: "reachable s \<Longrightarrow> grid_inv s"
proof (induction rule: reachable.induct)
  case (r_new w h st rs rp)
  then show ?case by (rule new_inv)
next
  case (r_Clear s)
  from r_Clear.IH show ?case by (intro Clear_inv) (auto simp: grid_inv_def well_formed_def)
next
  case (r_clock s st)
  then show ?case
    unfolding grid_inv_def well_formed_def boundary_def Get_def GetNext_def next_all_empty_def
    by auto
next
  case (r_rand s n)
  then show ?case
    unfolding grid_inv_def well_formed_def boundary_def Get_def GetNext_def next_all_empty_def
    by auto
qed (simp_all add: Update_inv AddParticle_inv LoadFromFile_inv Set_inv SetTemperature_inv)

section \<open>Boundary cells\<close>

lemma count_frame_fields [simp]:
  "grid (count_frame s) = grid s" "nextGrid (count_frame s) = nextGrid s"
  "temperature (count_frame s) = temperature s"
  "width (count_frame s) = width s" "height (count_frame s) = height s"
  "rand_seq (count_frame s) = rand_seq s" "rand_pos (count_frame s) = rand_pos s"
  by (simp_all add: count_frame_def)

lemma count_frame_wf [simp]: "well_formed (count_frame s) = well_formed s"
  by (simp add: well_formed_def)

lemma Get_count_frame [simp]: "Get (count_frame s) a b = Get s a b"
  by (simp add: Get_def)


lemma AddParticle_at_dims:
  "width (AddParticle_at x y p r s d) = width s \<and> height (AddParticle_at x y p r s d) = height s"
  by (cases d) (simp add: AddParticle_at_def Let_def)



text \<open>In every reachable state column 0 is Stone, so a file saved from a reachable state
  always loads as the cleared grid.\<close>

lemma load_of_save_reachable:
  assumes "reachable s"
  shows "LoadFromFile t (Some (SaveToFile s)) = Clear t"
proof (rule load_of_save)
  have inv: "grid_inv s" using assms by (rule reachable_inv)
  then show "1 \<le> width s" by (simp add: grid_inv_def well_formed_def)
  show "\<forall>y. 0 \<le> y \<and> y < height s \<longrightarrow> Get s 0 y = Stone"
    using inv by (auto simp: grid_inv_def well_formed_def boundary_def oob_def)
qed




section \<open>Painting\<close>

lemma distinct_cells:
  "distinct xs \<Longrightarrow> distinct ys \<Longrightarrow>
   distinct (concat (map (\<lambda>b. map (\<lambda>a. (a, b)) xs) ys))"
  by (induction ys) (auto simp: distinct_map inj_on_def)

lemma brush_offsets_distinct: "distinct (brush_offsets r)"
  unfolding brush_offsets_def by (rule distinct_cells) simp_all

lemma brush_offsets_iff:
  "((dx, dy) \<in> set (brush_offsets r)) = (- r \<le> dx \<and> dx \<le> r \<and> - r \<le> dy \<and> dy \<le> r)"
  by (auto simp: brush_offsets_def image_iff)

lemma AddParticle_at_wf [simp]: "well_formed (AddParticle_at x y p r s d) = well_formed s"
  by (cases d) (simp add: AddParticle_at_def Let_def)

lemma Get_AddParticle_at:
  "well_formed s \<Longrightarrow>
   Get (AddParticle_at x y p r s (dx, dy)) a b =
     (if a = x + dx \<and> b = y + dy \<and> paints s x y p r dx dy then p else Get s a b)"
  by (auto simp: AddParticle_at_def Let_def paints_def Get_Set oob_def)

lemma GetTemperature_AddParticle_at:
  "well_formed s \<Longrightarrow>
   GetTemperature (AddParticle_at x y p r s (dx, dy)) a b =
     (if a = x + dx \<and> b = y + dy \<and> paints s x y p r dx dy then initial_temperature p
      else GetTemperature s a b)"
  by (auto simp: AddParticle_at_def Let_def paints_def GetTemperature_SetTemperature oob_def)

lemma paints_AddParticle_at:
  "well_formed s \<Longrightarrow> (dx, dy) \<noteq> (ex, ey) \<Longrightarrow>
   paints (AddParticle_at x y p r s (ex, ey)) x y p r dx dy = paints s x y p r dx dy"
  by (auto simp: paints_def Get_AddParticle_at AddParticle_at_dims)

lemma foldl_AddParticle_at:
  "well_formed s \<Longrightarrow> distinct ds \<Longrightarrow>
   Get (foldl (AddParticle_at x y p r) s ds) a b =
     (if (a - x, b - y) \<in> set ds \<and> paints s x y p r (a - x) (b - y) then p else Get s a b) \<and>
   GetTemperature (foldl (AddParticle_at x y p r) s ds) a b =
     (if (a - x, b - y) \<in> set ds \<and> paints s x y p r (a - x) (b - y) then initial_temperature p
      else GetTemperature s a b)"
proof (induction ds arbitrary: s)
  case Nil
  then show ?case by simp
next
  case (Cons d ds)
  obtain ex ey where d: "d = (ex, ey)" by (cases d)
  let ?s = "AddParticle_at x y p r s (ex, ey)"
  have wf: "well_formed ?s" using Cons.prems by simp
  have dd: "distinct ds" "(ex, ey) \<notin> set ds" using Cons.prems d by auto
  note IH = Cons.IH [OF wf dd(1)]
  show ?case
  proof (cases "(a - x, b - y) = (ex, ey)")
    case True
    then have ab: "a = x + ex" "b = y + ey" by auto
    have "(a - x, b - y) \<notin> set ds" using True dd by simp
    then show ?thesis using IH Cons.prems(1) True
      by (simp add: d Get_AddParticle_at GetTemperature_AddParticle_at ab)
  next
    case False
    then have ne: "\<not> (a = x + ex \<and> b = y + ey)" by auto
    have pe: "paints ?s x y p r (a - x) (b - y) = paints s x y p r (a - x) (b - y)"
      using False Cons.prems(1) by (intro paints_AddParticle_at) auto
    have g: "Get ?s a b = Get s a b" "GetTemperature ?s a b = GetTemperature s a b"
      using ne Cons.prems(1) by (auto simp: Get_AddParticle_at GetTemperature_AddParticle_at)
    have m: "((a - x, b - y) \<in> set (d # ds)) = ((a - x, b - y) \<in> set ds)"
      using False by (auto simp: d)
    show ?thesis unfolding m using IH by (simp only: foldl_Cons d pe g)
  qed
qed

lemma brush_radius: "cdiv (brush_int br) 2 = brush_int br div 2"
  by (cases br) (simp_all add: cdiv_def)

text \<open>C8. A call \<open>AddParticle s x y p br\<close> with brush radius \<open>r = (int)br / 2\<close> changes the
  cell \<open>(a, b)\<close> exactly when it is painted: its offset from the centre is inside the
  square the loops run over and inside the circle, it lies in the paintable interior
  (\<open>0 < a < width - 1\<close>, \<open>0 \<le> b < height - 2\<close>), and the chosen type is Empty or the cell is
  Empty or Steam before the call. A painted cell gets the chosen type, and its temperature
  gets the stamp of the type: 1000 for Lava and Fire, -10 for Ice, 100 for Steam, 20 for every
  other type. Every other cell keeps type and temperature. So no cell of the boundary
  changes, and a cell of column 0 that is Stone is Stone afterwards.\<close>

theorem paint_effect:
  assumes "well_formed s" and "r = brush_int br div 2"
    and "painted =
      (- r \<le> a - x \<and> a - x \<le> r \<and> - r \<le> b - y \<and> b - y \<le> r \<and>
       (a - x) * (a - x) + (b - y) * (b - y) \<le> r * r \<and>
       0 < a \<and> a < width s - 1 \<and> 0 \<le> b \<and> b < height s - 2 \<and>
       (p = Empty \<or> Get s a b = Empty \<or> Get s a b = Steam))"
  shows "Get (AddParticle s x y p br) a b = (if painted then p else Get s a b) \<and>
     GetTemperature (AddParticle s x y p br) a b =
       (if painted then
          (if p = Lava \<or> p = Fire then 1000 else if p = Ice then - 10
           else if p = Steam then 100 else 20)
        else GetTemperature s a b) \<and>
     (boundary s a b \<longrightarrow> \<not> painted) \<and>
     (a = 0 \<and> Get s a b = Stone \<longrightarrow> Get (AddParticle s x y p br) a b = Stone)"
proof -
  have p: "painted = ((a - x, b - y) \<in> set (brush_offsets r) \<and> paints s x y p r (a - x) (b - y))"
    by (auto simp: assms(3) brush_offsets_iff paints_def)
  have t: "initial_temperature p =
      (if p = Lava \<or> p = Fire then 1000 else if p = Ice then - 10
       else if p = Steam then 100 else 20)"
    by (cases p) (simp_all add: initial_temperature_def)
  have "Get (AddParticle s x y p br) a b = (if painted then p else Get s a b) \<and>
     GetTemperature (AddParticle s x y p br) a b =
       (if painted then initial_temperature p else GetTemperature s a b)"
    unfolding AddParticle_def Let_def brush_radius assms(2) [symmetric] p
    by (rule foldl_AddParticle_at) (simp_all add: assms(1) brush_offsets_distinct)
  moreover have "boundary s a b \<longrightarrow> \<not> painted" by (auto simp: assms(3) boundary_def)
  moreover have "a = 0 \<longrightarrow> \<not> painted" by (auto simp: assms(3))
  ultimately show ?thesis by (auto simp: t)
qed

theorem paint_effect_witness:
  "well_formed demo_grid \<and> (1::int) = brush_int Medium div 2 \<and>
   Get (AddParticle demo_grid 2 1 Lava Medium) 2 1 = Lava \<and>
   GetTemperature (AddParticle demo_grid 2 1 Lava Medium) 2 1 = 1000 \<and>
   Get (AddParticle demo_grid 2 1 Lava Medium) 0 1 = Stone"
proof -
  have wf: "well_formed demo_grid" by code_simp
  have g: "Get demo_grid 2 1 = Empty" "Get demo_grid 0 1 = Stone"
    "width demo_grid = 5" "height demo_grid = 5" by code_simp+
  have r: "(1::int) = brush_int Medium div 2" by simp
  have 1: "Get (AddParticle demo_grid 2 1 Lava Medium) 2 1 = Lava \<and>
      GetTemperature (AddParticle demo_grid 2 1 Lava Medium) 2 1 = 1000"
    using paint_effect [where s = demo_grid and br = Medium and r = 1 and painted = True
        and a = 2 and b = 1 and x = 2 and y = 1 and p = Lava] wf g
    by simp
  have 2: "Get (AddParticle demo_grid 2 1 Lava Medium) 0 1 = Stone"
    using paint_effect [where s = demo_grid and br = Medium and r = 1 and painted = False
        and a = 0 and b = 1 and x = 2 and y = 1 and p = Lava] wf g
    by simp
  show ?thesis using wf r 1 2 by simp
qed

section \<open>Binary32 rounding\<close>

text \<open>The rounding is what it is meant to be: \<open>ilog2\<close> finds the binade, and the rounded
  value is at most half a unit in the last place away from the exact one.\<close>

lemma bit_length_bounds:
  "0 < a \<Longrightarrow> 1 \<le> bit_length a \<and> 2 ^ nat (bit_length a - 1) \<le> a \<and> a < 2 ^ nat (bit_length a)"
proof (induction a rule: bit_length.induct)
  case (1 a)
  show ?case
  proof (cases "a = 1")
    case True
    have "bit_length 1 = 1" by (simp add: bit_length.simps [of 1] bit_length.simps [of 0])
    then show ?thesis using True by simp
  next
    case False
    with 1(2) have h: "0 < a div 2" by simp
    define l where "l = bit_length (a div 2)"
    have ih: "1 \<le> l" "2 ^ nat (l - 1) \<le> a div 2" "a div 2 < 2 ^ nat l"
      using 1(1) [OF _ h] 1(2) by (simp_all add: l_def)
    have b: "bit_length a = 1 + l" using 1(2) by (simp add: bit_length.simps [of a] l_def)
    have n: "nat (1 + l) = Suc (nat l)" "nat l = Suc (nat (l - 1))" using ih(1) by simp_all
    have "(2::int) ^ nat l = 2 * 2 ^ nat (l - 1)" by (subst n(2)) simp
    then have lo: "(2::int) ^ nat l \<le> a" using ih(2) by linarith
    have "a < 2 * 2 ^ nat l" using ih(3) by linarith
    then show ?thesis using lo ih(1) by (simp add: b n(1))
  qed
qed

lemma bit_length_powi:
  assumes "0 < a"
  shows "(2::rat) powi (bit_length a - 1) \<le> of_int a" "of_int a < (2::rat) powi bit_length a"
proof -
  from bit_length_bounds [OF assms]
  have l: "1 \<le> bit_length a" and lo: "2 ^ nat (bit_length a - 1) \<le> a"
    and hi: "a < 2 ^ nat (bit_length a)" by simp_all
  have "(of_int (2 ^ nat (bit_length a - 1)) :: rat) \<le> of_int a" using lo by (simp only: of_int_le_iff)
  then show "(2::rat) powi (bit_length a - 1) \<le> of_int a" using l by (simp add: power_int_def)
  have "(of_int a :: rat) < of_int (2 ^ nat (bit_length a))" using hi by (simp only: of_int_less_iff)
  then show "of_int a < (2::rat) powi bit_length a" using l by (simp add: power_int_def)
qed

lemma ilog2_bounds:
  assumes "0 < q"
  shows "2 powi ilog2 q \<le> q \<and> q < 2 powi (ilog2 q + 1)"
proof -
  obtain a b where ab: "quotient_of q = (a, b)" by (cases "quotient_of q")
  have b: "0 < b" using quotient_of_denom_pos [OF ab] .
  have q: "q = of_int a / of_int b" using quotient_of_div [OF ab] .
  have a: "0 < a" using assms b by (simp add: q zero_less_divide_iff)
  define e where "e = bit_length a - bit_length b"
  note A = bit_length_powi [OF a] and B = bit_length_powi [OF b]
  have bp: "(0::rat) < of_int b" using b by simp
  have "q < 2 powi bit_length a / 2 powi (bit_length b - 1)"
    unfolding q using A(2) B(1) bp
    by (intro frac_less) (simp_all add: a less_imp_le)
  also have "\<dots> = 2 powi (e + 1)" by (simp add: e_def power_int_diff [symmetric] algebra_simps)
  finally have hi: "q < 2 powi (e + 1)" .
  have "(2::rat) powi (e - 1) = 2 powi (bit_length a - 1) / 2 powi bit_length b"
    by (simp add: e_def power_int_diff [symmetric] algebra_simps)
  also have "\<dots> \<le> q"
    unfolding q using A(1) B(2) bp a by (intro frac_le) (simp_all add: less_imp_le)
  finally have lo: "2 powi (e - 1) \<le> q" .
  have i: "ilog2 q = (if 2 powi e \<le> q then e else e - 1)"
    by (simp add: ilog2_def ab e_def Let_def)
  show ?thesis using lo hi by (auto simp: i)
qed

lemma round_even_near: "\<bar>of_int (round_even r) - r\<bar> \<le> 1 / 2"
proof -
  define d where "d = r - of_int \<lfloor>r\<rfloor>"
  have d: "0 \<le> d" "d < 1" unfolding d_def by linarith+
  have r: "r = of_int \<lfloor>r\<rfloor> + d" by (simp add: d_def)
  have "round_even r = (if d < 1 / 2 then \<lfloor>r\<rfloor> else if 1 / 2 < d then \<lfloor>r\<rfloor> + 1
      else if even \<lfloor>r\<rfloor> then \<lfloor>r\<rfloor> else \<lfloor>r\<rfloor> + 1)"
    by (simp add: round_even_def Let_def d_def)
  then have "of_int (round_even r) - r = (if d < 1 / 2 then - d else if 1 / 2 < d then 1 - d
      else if even \<lfloor>r\<rfloor> then - d else 1 - d)"
    using r by (simp split: if_splits)
  then show ?thesis using d by (simp split: if_splits)
qed


lemma f32_ulp_pos: "0 < f32_ulp q"
  by (simp add: f32_ulp_def)

lemma f32_round_near: "\<bar>f32_round q - q\<bar> \<le> f32_ulp q / 2"
proof (cases "q = 0")
  case True
  then show ?thesis using f32_ulp_pos [of q] by (simp add: f32_round_def)
next
  case False
  define u where "u = f32_ulp q"
  have u: "0 < u" by (simp add: u_def f32_ulp_pos)
  have "f32_round q - q = (of_int (round_even (q / u)) - q / u) * u"
    using False u by (simp add: f32_round_def u_def algebra_simps)
  then have "\<bar>f32_round q - q\<bar> = \<bar>of_int (round_even (q / u)) - q / u\<bar> * u"
    using u by (simp add: abs_mult)
  also have "\<dots> \<le> (1 / 2) * u" using u by (intro mult_right_mono round_even_near) simp
  finally show ?thesis by (simp add: u_def)
qed


section \<open>Frame skipping\<close>











section \<open>The Acid rule\<close>

lemma acid_match_prims [simp]:
  "acid_match (SetNext s a b p) x y = acid_match s x y"
  "acid_match (rand_adv s) x y = acid_match s x y"
  by (rule ext, simp add: acid_match_def)+

lemma acid_scan_step:
  "acid_scan s x y (d # ds) =
    (if acid_match s x y d then
       (if rand_val s mod 8 = 0
        then (True, SetNext (rand_adv (SetNext s (x + fst d) (y + snd d) Empty)) x y Empty)
        else acid_scan (rand_adv (SetNext s (x + fst d) (y + snd d) Empty)) x y ds)
     else acid_scan s x y ds)"
  by (cases d) (auto simp: acid_match_def Let_def rand_val_def)

lemma acid_scan_no_hit:
  "well_formed s \<Longrightarrow>
   \<forall>j < length (filter (acid_match s x y) ds). rand_seq s (rand_pos s + j) mod 8 \<noteq> 0 \<Longrightarrow>
   fst (acid_scan s x y ds) = False \<and>
   rand_pos (snd (acid_scan s x y ds)) = rand_pos s + length (filter (acid_match s x y) ds) \<and>
   (\<forall>a b. GetNext (snd (acid_scan s x y ds)) a b =
      (if (a - x, b - y) \<in> set (filter (acid_match s x y) ds) then Empty else GetNext s a b))"
proof (induction ds arbitrary: s)
  case Nil
  then show ?case by simp
next
  case (Cons d ds)
  show ?case
  proof (cases "acid_match s x y d")
    case False
    then show ?thesis using Cons by (simp add: acid_scan_step)
  next
    case True
    let ?s = "rand_adv (SetNext s (x + fst d) (y + snd d) Empty)"
    have r0: "rand_val s mod 8 \<noteq> 0" using Cons.prems(2) True by (auto simp: rand_val_def)
    have wf: "well_formed ?s" using Cons.prems(1) by simp
    have dr: "\<forall>j < length (filter (acid_match ?s x y) ds). rand_seq ?s (rand_pos ?s + j) mod 8 \<noteq> 0"
      using Cons.prems(2) True by auto
    have inb: "\<not> oob (width s) (height s) (x + fst d) (y + snd d)"
      using True by (auto simp: acid_match_def oob_def)
    have eq: "(a - x, b - y) = d \<longleftrightarrow> a = x + fst d \<and> b = y + snd d" for a b
      by (cases d) auto
    from Cons.IH [OF wf dr] show ?thesis using True r0 Cons.prems(1) inb
      by (auto simp: acid_scan_step GetNext_SetNext eq)
  qed
qed

lemma acid_scan_hit:
  "well_formed s \<Longrightarrow> \<not> oob (width s) (height s) x y \<Longrightarrow>
   j < length (filter (acid_match s x y) ds) \<Longrightarrow>
   rand_seq s (rand_pos s + j) mod 8 = 0 \<Longrightarrow>
   \<forall>i < j. rand_seq s (rand_pos s + i) mod 8 \<noteq> 0 \<Longrightarrow>
   fst (acid_scan s x y ds) = True \<and>
   rand_pos (snd (acid_scan s x y ds)) = rand_pos s + Suc j \<and>
   (\<forall>a b. GetNext (snd (acid_scan s x y ds)) a b =
      (if (a - x, b - y) \<in> set (take (Suc j) (filter (acid_match s x y) ds)) \<or> (a = x \<and> b = y)
       then Empty else GetNext s a b))"
proof (induction ds arbitrary: s j)
  case Nil
  then show ?case by simp
next
  case (Cons d ds)
  show ?case
  proof (cases "acid_match s x y d")
    case False
    then show ?thesis using Cons by (simp add: acid_scan_step)
  next
    case True
    let ?s = "rand_adv (SetNext s (x + fst d) (y + snd d) Empty)"
    have wf: "well_formed ?s" using Cons.prems(1) by simp
    have inb: "\<not> oob (width s) (height s) (x + fst d) (y + snd d)"
      using True by (auto simp: acid_match_def oob_def)
    have eq: "(a - x, b - y) = d \<longleftrightarrow> a = x + fst d \<and> b = y + snd d" for a b
      by (cases d) auto
    show ?thesis
    proof (cases j)
      case 0
      then show ?thesis using True Cons.prems inb
        by (auto simp: acid_scan_step rand_val_def GetNext_SetNext eq)
    next
      case (Suc k)
      have r0: "rand_val s mod 8 \<noteq> 0" using Cons.prems(5) Suc by (auto simp: rand_val_def)
      have 1: "\<not> oob (width ?s) (height ?s) x y" using Cons.prems(2) by simp
      have 2: "k < length (filter (acid_match ?s x y) ds)" using Cons.prems(3) True Suc by simp
      have 3: "rand_seq ?s (rand_pos ?s + k) mod 8 = 0" using Cons.prems(4) Suc by simp
      have 4: "\<forall>i < k. rand_seq ?s (rand_pos ?s + i) mod 8 \<noteq> 0"
        using Cons.prems(5) Suc by auto
      from Cons.IH [OF wf 1 2 3 4] show ?thesis using True r0 Cons.prems(1) inb Suc
        by (auto simp: acid_scan_step GetNext_SetNext eq)
    qed
  qed
qed

lemma acid_scan_temperature: "temperature (snd (acid_scan s x y ds)) = temperature s"
  by (induction ds arbitrary: s) (simp_all add: acid_scan_step)

text \<open>On a grid with an Acid cell between two Ice cells and a first draw that succeeds, the
  rule dissolves the first Ice cell and consumes the acid; the second Ice cell, a neighbour
  that is Ice in the snapshot, is still Ice in the next buffer after the rule, and in the grid
  after the tick.\<close>

theorem acid_counterexample:
  "Get acid_demo 2 2 = Acid \<and> Get acid_demo 1 1 = Ice \<and> Get acid_demo 3 3 = Ice \<and>
   GetNext (snd (ProcessReactions (scan_start acid_demo) 2 2)) 1 1 = Empty \<and>
   GetNext (snd (ProcessReactions (scan_start acid_demo) 2 2)) 3 3 = Ice \<and>
   Get (tick acid_demo) 3 3 = Ice"
  by code_simp

text \<open>C7, as the code has it. For an Acid cell \<open>(x, y)\<close> of the scanned interior, let
  \<open>ms\<close> be the offsets, in scan order, of the neighbours that lie in columns
  \<open>1 .. width - 2\<close> and rows \<open>1 .. height - 3\<close> and are Sand or Ice in the current buffer.
  The rule walks \<open>ms\<close>: it turns the neighbour to Empty in the next buffer and makes one
  draw. At the first draw that is 0 modulo 8, say the draw number \<open>j\<close>, it turns the Acid
  cell itself to Empty and stops: the first \<open>j + 1\<close> neighbours of \<open>ms\<close> and the Acid cell
  are Empty, every other cell of the next buffer is as before, and the movement rule is
  skipped. When none of the \<open>length ms\<close> draws succeeds, all neighbours of \<open>ms\<close> are Empty,
  the acid is not consumed and the movement rule runs. The current buffer and the
  temperatures do not change.\<close>

theorem acid_rule:
  assumes "well_formed s" "1 \<le> x" "x \<le> width s - 2" "0 \<le> y" "y \<le> height s - 3"
    and "Get s x y = Acid"
    and "ms = filter (\<lambda>(dx, dy).
            0 < x + dx \<and> x + dx < width s - 1 \<and> 0 < y + dy \<and> y + dy < height s - 2 \<and>
            (Get s (x + dx) (y + dy) = Sand \<or> Get s (x + dx) (y + dy) = Ice)) offsets8"
    and "s' = snd (ProcessReactions s x y)"
  shows
    "((\<forall>j < length ms. rand_seq s (rand_pos s + j) mod 8 \<noteq> 0) \<longrightarrow>
        fst (ProcessReactions s x y) = False \<and> rand_pos s' = rand_pos s + length ms \<and>
        (\<forall>a b. GetNext s' a b = (if (a - x, b - y) \<in> set ms then Empty else GetNext s a b)) \<and>
        Update_cell s (x, y) = UpdateAcid s' x y) \<and>
     (\<forall>j < length ms.
        rand_seq s (rand_pos s + j) mod 8 = 0 \<and>
        (\<forall>i < j. rand_seq s (rand_pos s + i) mod 8 \<noteq> 0) \<longrightarrow>
        fst (ProcessReactions s x y) = True \<and> rand_pos s' = rand_pos s + Suc j \<and>
        (\<forall>a b. GetNext s' a b =
           (if (a - x, b - y) \<in> set (take (Suc j) ms) \<or> (a = x \<and> b = y) then Empty
            else GetNext s a b)) \<and>
        Update_cell s (x, y) = s') \<and>
     grid s' = grid s \<and> temperature s' = temperature s"
proof -
  have pr: "ProcessReactions s x y = acid_scan s x y offsets8"
    using assms(6) by (simp add: ProcessReactions_def)
  have m: "ms = filter (acid_match s x y) offsets8"
    unfolding assms(7) by (rule arg_cong [where f = "\<lambda>P. filter P offsets8"])
      (auto simp: acid_match_def fun_eq_iff)
  have inb: "\<not> oob (width s) (height s) x y" using assms(2-5) by (auto simp: oob_def)
  have uc: "Update_cell s (x, y) =
      (if fst (ProcessReactions s x y) then s' else UpdateAcid s' x y)"
    using assms(6) by (simp add: Update_cell_def assms(8) move_cell_def split: prod.splits)
  have 1: "fst (ProcessReactions s x y) = False \<and> rand_pos s' = rand_pos s + length ms \<and>
        (\<forall>a b. GetNext s' a b = (if (a - x, b - y) \<in> set ms then Empty else GetNext s a b)) \<and>
        Update_cell s (x, y) = UpdateAcid s' x y"
    if h: "\<forall>j < length ms. rand_seq s (rand_pos s + j) mod 8 \<noteq> 0"
  proof -
    have h': "\<forall>j < length (filter (acid_match s x y) offsets8).
        rand_seq s (rand_pos s + j) mod 8 \<noteq> 0"
      using h unfolding m .
    have r: "fst (ProcessReactions s x y) = False \<and> rand_pos s' = rand_pos s + length ms \<and>
        (\<forall>a b. GetNext s' a b = (if (a - x, b - y) \<in> set ms then Empty else GetNext s a b))"
      using acid_scan_no_hit [OF assms(1) h'] unfolding assms(8) pr m .
    then have "Update_cell s (x, y) = UpdateAcid s' x y" by (simp only: uc if_False)
    with r show ?thesis by (intro conjI) (elim conjE, assumption)+
  qed
  have 2: "fst (ProcessReactions s x y) = True \<and> rand_pos s' = rand_pos s + Suc j \<and>
        (\<forall>a b. GetNext s' a b =
           (if (a - x, b - y) \<in> set (take (Suc j) ms) \<or> (a = x \<and> b = y) then Empty
            else GetNext s a b)) \<and>
        Update_cell s (x, y) = s'"
    if h: "j < length ms" "rand_seq s (rand_pos s + j) mod 8 = 0"
      "\<forall>i < j. rand_seq s (rand_pos s + i) mod 8 \<noteq> 0" for j
  proof -
    have h': "j < length (filter (acid_match s x y) offsets8)" using h(1) unfolding m .
    have r: "fst (ProcessReactions s x y) = True \<and> rand_pos s' = rand_pos s + Suc j \<and>
        (\<forall>a b. GetNext s' a b =
           (if (a - x, b - y) \<in> set (take (Suc j) ms) \<or> (a = x \<and> b = y) then Empty
            else GetNext s a b))"
      using acid_scan_hit [OF assms(1) inb h' h(2,3)] unfolding assms(8) pr m .
    then have "Update_cell s (x, y) = s'" by (simp only: uc if_True)
    with r show ?thesis by (intro conjI) (elim conjE, assumption)+
  qed
  have 3: "grid s' = grid s"
    using cw_ProcessReactions [OF assms(1), of x y]
    by (simp add: assms(8) cell_writes_def same_frame_def)
  have 4: "temperature s' = temperature s"
    by (simp add: assms(8) pr acid_scan_temperature)
  have A: "(\<forall>j < length ms. rand_seq s (rand_pos s + j) mod 8 \<noteq> 0) \<longrightarrow>
        fst (ProcessReactions s x y) = False \<and> rand_pos s' = rand_pos s + length ms \<and>
        (\<forall>a b. GetNext s' a b = (if (a - x, b - y) \<in> set ms then Empty else GetNext s a b)) \<and>
        Update_cell s (x, y) = UpdateAcid s' x y"
    by (rule impI) (rule 1)
  have B: "\<forall>j < length ms.
        rand_seq s (rand_pos s + j) mod 8 = 0 \<and>
        (\<forall>i < j. rand_seq s (rand_pos s + i) mod 8 \<noteq> 0) \<longrightarrow>
        fst (ProcessReactions s x y) = True \<and> rand_pos s' = rand_pos s + Suc j \<and>
        (\<forall>a b. GetNext s' a b =
           (if (a - x, b - y) \<in> set (take (Suc j) ms) \<or> (a = x \<and> b = y) then Empty
            else GetNext s a b)) \<and>
        Update_cell s (x, y) = s'"
  proof (intro allI impI)
    fix j
    assume "j < length ms" and "rand_seq s (rand_pos s + j) mod 8 = 0 \<and>
        (\<forall>i < j. rand_seq s (rand_pos s + i) mod 8 \<noteq> 0)"
    then show "fst (ProcessReactions s x y) = True \<and> rand_pos s' = rand_pos s + Suc j \<and>
        (\<forall>a b. GetNext s' a b =
           (if (a - x, b - y) \<in> set (take (Suc j) ms) \<or> (a = x \<and> b = y) then Empty
            else GetNext s a b)) \<and>
        Update_cell s (x, y) = s'"
      by (intro 2) (elim conjE, assumption)+
  qed
  show ?thesis by (intro conjI) (fact A, fact B, fact 3, fact 4)
qed

theorem acid_rule_witness:
  "well_formed acid_hit \<and> Get acid_hit 2 2 = Acid \<and>
   rand_seq acid_hit (rand_pos acid_hit) mod 8 = 0 \<and>
   fst (ProcessReactions acid_hit 2 2) = True \<and>
   GetNext (snd (ProcessReactions acid_hit 2 2)) 1 1 = Empty \<and>
   GetNext (snd (ProcessReactions acid_hit 2 2)) 2 2 = Empty \<and>
   GetNext (snd (ProcessReactions acid_hit 2 2)) 3 3 = Ice \<and>
   Update_cell acid_hit (2, 2) = snd (ProcessReactions acid_hit 2 2) \<and>
   well_formed acid_miss \<and> Get acid_miss 2 2 = Acid \<and>
   rand_seq acid_miss (rand_pos acid_miss) mod 8 \<noteq> 0 \<and>
   rand_seq acid_miss (rand_pos acid_miss + 1) mod 8 \<noteq> 0 \<and>
   fst (ProcessReactions acid_miss 2 2) = False \<and>
   GetNext (snd (ProcessReactions acid_miss 2 2)) 1 1 = Empty \<and>
   GetNext (snd (ProcessReactions acid_miss 2 2)) 3 3 = Empty \<and>
   Update_cell acid_miss (2, 2) = UpdateAcid (snd (ProcessReactions acid_miss 2 2)) 2 2"
proof -
  have wf: "well_formed acid_hit" "well_formed acid_miss" by code_simp+
  have g: "Get acid_hit 2 2 = Acid" "Get acid_miss 2 2 = Acid" by code_simp+
  have b: "(1::int) \<le> 2" "2 \<le> width acid_hit - 2" "(0::int) \<le> 2" "2 \<le> height acid_hit - 3"
    "2 \<le> width acid_miss - 2" "2 \<le> height acid_miss - 3" by code_simp+
  have ms: "[(- 1, - 1), (1, 1)] = filter (\<lambda>(dx, dy).
            0 < 2 + dx \<and> 2 + dx < width acid_hit - 1 \<and> 0 < 2 + dy \<and> 2 + dy < height acid_hit - 2 \<and>
            (Get acid_hit (2 + dx) (2 + dy) = Sand \<or> Get acid_hit (2 + dx) (2 + dy) = Ice)) offsets8"
    "[(- 1, - 1), (1, 1)] = filter (\<lambda>(dx, dy).
            0 < 2 + dx \<and> 2 + dx < width acid_miss - 1 \<and> 0 < 2 + dy \<and> 2 + dy < height acid_miss - 2 \<and>
            (Get acid_miss (2 + dx) (2 + dy) = Sand \<or> Get acid_miss (2 + dx) (2 + dy) = Ice)) offsets8"
    by code_simp+
  have d: "rand_seq acid_hit (rand_pos acid_hit) mod 8 = 0"
    "rand_seq acid_miss (rand_pos acid_miss) mod 8 \<noteq> 0"
    "rand_seq acid_miss (rand_pos acid_miss + 1) mod 8 \<noteq> 0" by code_simp+
  have n: "GetNext acid_hit 3 3 = Ice" by code_simp
  note H = acid_rule [OF wf(1) b(1,2,3,4) g(1) ms(1) refl]
  note M = acid_rule [OF wf(2) b(1,5,3,6) g(2) ms(2) refl]
  have "fst (ProcessReactions acid_hit 2 2) = True \<and>
    rand_pos (snd (ProcessReactions acid_hit 2 2)) = rand_pos acid_hit + Suc 0 \<and>
    (\<forall>a b. GetNext (snd (ProcessReactions acid_hit 2 2)) a b =
       (if (a - 2, b - 2) \<in> set (take (Suc 0) [(- 1, - 1), (1, 1)]) \<or> (a = 2 \<and> b = 2) then Empty
        else GetNext acid_hit a b)) \<and>
    Update_cell acid_hit (2, 2) = snd (ProcessReactions acid_hit 2 2)"
    using H [THEN conjunct2, THEN conjunct1, rule_format, of 0] d(1) by simp
  moreover have "fst (ProcessReactions acid_miss 2 2) = False \<and>
    rand_pos (snd (ProcessReactions acid_miss 2 2)) = rand_pos acid_miss + length [(- 1, - 1), (1::int, 1::int)] \<and>
    (\<forall>a b. GetNext (snd (ProcessReactions acid_miss 2 2)) a b =
       (if (a - 2, b - 2) \<in> set [(- 1, - 1), (1, 1)] then Empty else GetNext acid_miss a b)) \<and>
    Update_cell acid_miss (2, 2) = UpdateAcid (snd (ProcessReactions acid_miss 2 2)) 2 2"
    using M [THEN conjunct1] d(2,3) by (simp add: less_Suc_eq)
  ultimately show ?thesis using wf g d n by simp
qed

section \<open>Lava and Water\<close>












section \<open>Liquids and Steam\<close>

lemma count_list_update:
  "i < length xs \<Longrightarrow>
   count_list (xs[i := v]) a + (if xs ! i = a then 1 else 0) =
   count_list xs a + (if v = a then 1 else 0)"
proof (induction xs arbitrary: i)
  case Nil
  then show ?case by simp
next
  case (Cons z zs)
  show ?case
  proof (cases i)
    case 0
    then show ?thesis by simp
  next
    case (Suc k)
    then have "k < length zs" using Cons.prems by simp
    from Cons.IH [OF this] Suc show ?thesis by (auto split: if_splits)
  qed
qed

lemma nextGrid_SetNext:
  "nextGrid (SetNext s x y p) =
    (if oob (width s) (height s) x y then nextGrid s else (nextGrid s)[idx (width s) x y := p])"
  by (simp add: SetNext_def)

lemma GetNext_nth:
  "\<not> oob (width s) (height s) a b \<Longrightarrow> GetNext s a b = nextGrid s ! idx (width s) a b"
  by (simp add: GetNext_def)

lemma GetNext_cong:
  "nextGrid s' = nextGrid s \<Longrightarrow> width s' = width s \<Longrightarrow> height s' = height s \<Longrightarrow>
   GetNext s' a b = GetNext s a b"
  by (simp add: GetNext_def)

lemma two_writes:
  assumes wf: "well_formed s" and o: "\<not> oob (width s) (height s) x y"
    and t: "\<not> oob (width s) (height s) tx ty" and ne: "(tx, ty) \<noteq> (x, y)"
    and p: "p \<noteq> Steam" "q \<noteq> Steam"
    and s': "nextGrid s' = nextGrid (SetNext (SetNext s tx ty p) x y q)"
      "width s' = width s" "height s' = height s"
  shows "GetNext s' tx ty = p \<and> GetNext s' x y = q \<and>
    (\<forall>a b. \<not> (a = tx \<and> b = ty) \<and> \<not> (a = x \<and> b = y) \<longrightarrow> GetNext s' a b = GetNext s a b) \<and>
    count_list (nextGrid s') Steam + (if GetNext s tx ty = Steam then 1 else 0) +
      (if GetNext s x y = Steam then 1 else 0) = count_list (nextGrid s) Steam"
proof -
  let ?u = "SetNext (SetNext s tx ty p) x y q"
  have g: "GetNext s' a b = GetNext ?u a b" for a b
    using s' by (intro GetNext_cong) simp_all
  have 1: "GetNext s' tx ty = p" using wf o t ne by (auto simp: g GetNext_SetNext)
  have 2: "GetNext s' x y = q" using wf o t ne by (auto simp: g GetNext_SetNext)
  have 3: "\<forall>a b. \<not> (a = tx \<and> b = ty) \<and> \<not> (a = x \<and> b = y) \<longrightarrow> GetNext s' a b = GetNext s a b"
    using wf by (auto simp: g GetNext_SetNext)
  let ?i = "idx (width s) tx ty" and ?j = "idx (width s) x y"
  have l: "?i < length (nextGrid s)" "?j < length (nextGrid s)"
    using wf o t by (simp_all add: well_formed_def idx_less)
  have ij: "?i \<noteq> ?j" using o t ne by (simp add: idx_inj)
  have n: "nextGrid s' = (nextGrid s)[?i := p, ?j := q]"
    using o t by (simp add: s' nextGrid_SetNext)
  have a: "count_list ((nextGrid s)[?i := p]) Steam + (if nextGrid s ! ?i = Steam then 1 else 0) =
      count_list (nextGrid s) Steam"
    using count_list_update [OF l(1), of p Steam] p by simp
  have b: "count_list ((nextGrid s)[?i := p, ?j := q]) Steam +
      (if (nextGrid s)[?i := p] ! ?j = Steam then 1 else 0) =
      count_list ((nextGrid s)[?i := p]) Steam"
    using count_list_update [of ?j "(nextGrid s)[?i := p]" q Steam] l p by simp
  have c: "(nextGrid s)[?i := p] ! ?j = nextGrid s ! ?j" using ij by simp
  have 4: "count_list (nextGrid s') Steam + (if GetNext s tx ty = Steam then 1 else 0) +
      (if GetNext s x y = Steam then 1 else 0) = count_list (nextGrid s) Steam"
    using a b unfolding c n GetNext_nth [OF o] GetNext_nth [OF t] by linarith
  show ?thesis using 1 2 3 4 by (intro conjI)
qed

lemma dir_of_cases: "dir_of r = 1 \<or> dir_of r = - 1"
  by (simp add: dir_of_def)

lemma side_flow_next:
  assumes "\<not> CanMoveDown t x y"
    and "d = (if CanMoveSide t x y (dir_of (rand_val t)) then dir_of (rand_val t)
              else - dir_of (rand_val t))"
    and "Get t (x + d) y = Steam"
  shows "nextGrid (flow_liquid p t x y) = nextGrid (SetNext (SetNext t (x + d) y p) x y Empty)"
    and "nextGrid (UpdateLava t x y) = nextGrid (SetNext (SetNext t (x + d) y Lava) x y Empty)"
  using assms
  by (auto simp: flow_liquid_def UpdateLava_def Let_def CanMoveSide_def nextGrid_SetNext)

lemma down_flow_next:
  assumes "Get t x y = p" "p = Water \<or> p = Acid \<or> p = Lava \<or> p = Oil"
    and "Get t x (y + 1) = Steam"
  shows "nextGrid (flow_liquid p t x y) = nextGrid (SetNext (SetNext t x (y + 1) p) x y Steam)"
    and "nextGrid (UpdateLava t x y) = nextGrid (SetNext (SetNext t x (y + 1) Lava) x y Steam)"
  using assms
  by (auto simp: flow_liquid_def UpdateLava_def Let_def CanMoveDown_def leave_origin_def
      nextGrid_SetNext)

lemma flow_dims [simp]:
  "width (flow_liquid p t x y) = width t" "height (flow_liquid p t x y) = height t"
  "width (UpdateLava t x y) = width t" "height (UpdateLava t x y) = height t"
  by (simp_all add: flow_liquid_def UpdateLava_def Let_def leave_origin_def)

text \<open>On a grid with a Steam cell and a Water cell to its right, both on the floor, the
  tick moves the Water sideways into the cell that held the Steam and empties the origin;
  the Steam, processed earlier in the same row, has risen. The grid holds one Steam cell
  before the tick and one after it: the count has not decreased.\<close>

theorem side_flow_counterexample:
  "Get steam_demo 1 1 = Steam \<and> Get steam_demo 2 1 = Water \<and>
   Get (tick steam_demo) 1 1 = Water \<and> Get (tick steam_demo) 2 1 = Empty \<and>
   Get (tick steam_demo) 1 0 = Steam \<and>
   count_list (grid steam_demo) Steam = 1 \<and> count_list (grid (tick steam_demo)) Steam = 1"
  by code_simp

text \<open>C10, as the code has it. Let \<open>(x, y)\<close> hold a liquid \<open>p\<close> (Water, Acid, Lava or
  Oil) whose movement rule runs (for Oil, with its gate draw even), and let \<open>d\<close> be the
  side the rule takes: the drawn direction when that side is Empty or Steam, the opposite
  one otherwise. When the liquid cannot fall and the cell at \<open>x + d\<close> is Steam in the
  current buffer, the rule writes the liquid over that cell and Empty into the origin, in
  the next buffer, and nothing else there: no Steam is written back. The number of Steam
  cells of the next buffer goes down by one for each of the two cells that still held Steam
  there, so it never goes up, and it goes down when the target still holds Steam in the next
  buffer. When instead the cell below is Steam, the liquid is written below and Steam into
  the origin: the two exchange places.\<close>

theorem liquid_through_steam:
  assumes "well_formed s" "\<not> oob (width s) (height s) x y"
    and "Get s x y = p" "p = Water \<or> p = Acid \<or> p = Lava \<or> p = Oil"
    and "p = Oil \<longrightarrow> rand_val s mod 2 = 0"
    and "t = (if p = Oil then rand_adv s else s)"
    and "d = (if CanMoveSide t x y (dir_of (rand_val t)) then dir_of (rand_val t)
              else - dir_of (rand_val t))"
    and "s' = move_cell p s x y"
  shows
    "(\<not> CanMoveDown s x y \<and> Get s (x + d) y = Steam \<longrightarrow>
        GetNext s' (x + d) y = p \<and> GetNext s' x y = Empty \<and>
        (\<forall>a b. \<not> (a = x + d \<and> b = y) \<and> \<not> (a = x \<and> b = y) \<longrightarrow>
           GetNext s' a b = GetNext s a b) \<and>
        count_list (nextGrid s') Steam + (if GetNext s (x + d) y = Steam then 1 else 0) +
          (if GetNext s x y = Steam then 1 else 0) = count_list (nextGrid s) Steam) \<and>
     (Get s x (y + 1) = Steam \<longrightarrow>
        GetNext s' x (y + 1) = p \<and> GetNext s' x y = Steam \<and>
        (\<forall>a b. \<not> (a = x \<and> b = y + 1) \<and> \<not> (a = x \<and> b = y) \<longrightarrow>
           GetNext s' a b = GetNext s a b))"
proof -
  have wft: "well_formed t" and dt: "width t = width s" "height t = height s"
    and gt: "\<And>a b. Get t a b = Get s a b" and nt: "\<And>a b. GetNext t a b = GetNext s a b"
    and ngt: "nextGrid t = nextGrid s"
    using assms(1) by (simp_all add: assms(6))
  have cd: "CanMoveDown t x y = CanMoveDown s x y" by (simp add: CanMoveDown_def gt)
  have ot: "\<not> oob (width t) (height t) x y" using assms(2) by (simp add: dt)
  have ps: "p \<noteq> Steam" using assms(4) by auto
  have mc: "nextGrid s' = nextGrid (if p = Lava then UpdateLava t x y else flow_liquid p t x y)"
    "width s' = width t" "height s' = height t"
    using assms(4,5)
    by (auto simp: assms(6,8) move_cell_def UpdateWater_def UpdateAcid_def UpdateOil_def Let_def)
  have side: "GetNext s' (x + d) y = p \<and> GetNext s' x y = Empty \<and>
        (\<forall>a b. \<not> (a = x + d \<and> b = y) \<and> \<not> (a = x \<and> b = y) \<longrightarrow>
           GetNext s' a b = GetNext s a b) \<and>
        count_list (nextGrid s') Steam + (if GetNext s (x + d) y = Steam then 1 else 0) +
          (if GetNext s x y = Steam then 1 else 0) = count_list (nextGrid s) Steam"
    if h: "\<not> CanMoveDown s x y" "Get s (x + d) y = Steam"
  proof -
    have 1: "\<not> CanMoveDown t x y" "Get t (x + d) y = Steam" using h by (simp_all add: cd gt)
    have tb: "\<not> oob (width t) (height t) (x + d) y" using 1(2) by (auto simp: Get_def)
    have d0: "(x + d, y) \<noteq> (x, y)" using dir_of_cases [of "rand_val t"] by (auto simp: assms(7))
    have n: "nextGrid s' = nextGrid (SetNext (SetNext t (x + d) y p) x y Empty)"
      using side_flow_next(1) [OF 1(1) assms(7) 1(2), of p] side_flow_next(2) [OF 1(1) assms(7) 1(2)]
      by (auto simp: mc(1))
    from two_writes [OF wft ot tb d0 ps _ n mc(2,3)] show ?thesis by (simp add: nt ngt)
  qed
  have down: "GetNext s' x (y + 1) = p \<and> GetNext s' x y = Steam \<and>
        (\<forall>a b. \<not> (a = x \<and> b = y + 1) \<and> \<not> (a = x \<and> b = y) \<longrightarrow>
           GetNext s' a b = GetNext s a b)"
    if h: "Get s x (y + 1) = Steam"
  proof -
    have 1: "Get t x y = p" "Get t x (y + 1) = Steam" using h assms(3) by (simp_all add: gt)
    have tb: "\<not> oob (width t) (height t) x (y + 1)" using 1(2) by (auto simp: Get_def)
    have n: "nextGrid s' = nextGrid (SetNext (SetNext t x (y + 1) p) x y Steam)"
      using down_flow_next [OF 1(1) assms(4) 1(2)] by (auto simp: mc(1))
    have e: "GetNext s' a b = GetNext (SetNext (SetNext t x (y + 1) p) x y Steam) a b" for a b
      using n mc(2,3) by (intro GetNext_cong) simp_all
    show ?thesis using wft ot tb by (auto simp: e GetNext_SetNext nt)
  qed
  show ?thesis
  proof (rule conjI; rule impI)
    assume "\<not> CanMoveDown s x y \<and> Get s (x + d) y = Steam"
    then have "\<not> CanMoveDown s x y" "Get s (x + d) y = Steam" by simp_all
    then show "GetNext s' (x + d) y = p \<and> GetNext s' x y = Empty \<and>
        (\<forall>a b. \<not> (a = x + d \<and> b = y) \<and> \<not> (a = x \<and> b = y) \<longrightarrow>
           GetNext s' a b = GetNext s a b) \<and>
        count_list (nextGrid s') Steam + (if GetNext s (x + d) y = Steam then 1 else 0) +
          (if GetNext s x y = Steam then 1 else 0) = count_list (nextGrid s) Steam"
      by (rule side)
  next
    assume "Get s x (y + 1) = Steam"
    then show "GetNext s' x (y + 1) = p \<and> GetNext s' x y = Steam \<and>
        (\<forall>a b. \<not> (a = x \<and> b = y + 1) \<and> \<not> (a = x \<and> b = y) \<longrightarrow>
           GetNext s' a b = GetNext s a b)"
      by (rule down)
  qed
qed

theorem liquid_through_steam_witness:
  "well_formed steam_side \<and> \<not> oob (width steam_side) (height steam_side) 2 1 \<and>
   Get steam_side 2 1 = Water \<and> \<not> CanMoveDown steam_side 2 1 \<and>
   dir_of (rand_val steam_side) = - 1 \<and> CanMoveSide steam_side 2 1 (- 1) \<and>
   Get steam_side 1 1 = Steam \<and>
   GetNext (move_cell Water steam_side 2 1) 1 1 = Water \<and>
   GetNext (move_cell Water steam_side 2 1) 2 1 = Empty \<and>
   count_list (nextGrid steam_side) Steam = 1 \<and>
   count_list (nextGrid (move_cell Water steam_side 2 1)) Steam = 0 \<and>
   well_formed steam_below \<and> \<not> oob (width steam_below) (height steam_below) 1 0 \<and>
   Get steam_below 1 0 = Water \<and> Get steam_below 1 1 = Steam \<and>
   GetNext (move_cell Water steam_below 1 0) 1 1 = Water \<and>
   GetNext (move_cell Water steam_below 1 0) 1 0 = Steam"
proof -
  have a: "well_formed steam_side" "\<not> oob (width steam_side) (height steam_side) 2 1"
    "Get steam_side 2 1 = Water" "\<not> CanMoveDown steam_side 2 1"
    "dir_of (rand_val steam_side) = - 1" "CanMoveSide steam_side 2 1 (- 1)"
    "Get steam_side 1 1 = Steam" "GetNext steam_side 1 1 = Steam" "GetNext steam_side 2 1 = Water"
    "count_list (nextGrid steam_side) Steam = 1"
    by code_simp+
  have b: "well_formed steam_below" "\<not> oob (width steam_below) (height steam_below) 1 0"
    "Get steam_below 1 0 = Water" "Get steam_below 1 1 = Steam"
    by code_simp+
  have d: "(- 1::int) = (if CanMoveSide steam_side 2 1 (dir_of (rand_val steam_side))
      then dir_of (rand_val steam_side) else - dir_of (rand_val steam_side))"
    using a(5,6) by simp
  have p4: "Water = Water \<or> Water = Acid \<or> Water = Lava \<or> Water = Oil" by simp
  have p5: "Water = Oil \<longrightarrow> rand_val t mod 2 = 0" for t by simp
  have p6: "t = (if Water = Oil then rand_adv t else t)" for t by simp
  have h: "\<not> CanMoveDown steam_side 2 1 \<and> Get steam_side (2 + - 1) 1 = Steam"
    using a(4,7) by simp
  have n: "GetNext steam_side (2 + - 1) 1 = Steam" using a(8) by simp
  note S = liquid_through_steam [OF a(1,2,3) p4 p5 p6 d refl, THEN conjunct1, THEN mp, OF h]
  have 1: "GetNext (move_cell Water steam_side 2 1) 1 1 = Water \<and>
      GetNext (move_cell Water steam_side 2 1) 2 1 = Empty \<and>
      count_list (nextGrid (move_cell Water steam_side 2 1)) Steam = 0"
    using S unfolding n a(9) a(10) by simp
  have h2: "Get steam_below 1 (0 + 1) = Steam" using b(4) by simp
  note D = liquid_through_steam [OF b(1,2,3) p4 p5 p6 refl refl, THEN conjunct2, THEN mp, OF h2]
  have 2: "GetNext (move_cell Water steam_below 1 0) 1 1 = Water \<and>
      GetNext (move_cell Water steam_below 1 0) 1 0 = Steam"
    using D by simp
  show ?thesis using a b 1 2 by simp
qed

section \<open>Temperature diffusion\<close>

lemma temp_acc_fold:
  "foldl (temp_acc s x y) (a, n) ds =
    (a + sum_list (map (\<lambda>(dx, dy). GetTemperature s (x + dx) (y + dy))
           (filter (\<lambda>(dx, dy). Get s (x + dx) (y + dy) \<noteq> Empty) ds)),
     n + int (length (filter (\<lambda>(dx, dy). Get s (x + dx) (y + dy) \<noteq> Empty) ds)))"
  by (induction ds arbitrary: a n) (auto simp: temp_acc_def)

lemma cdiv_pos: "1 \<le> n \<Longrightarrow> cdiv a n = (if 0 \<le> a then a div n else - ((- a) div n))"
  by (auto simp: cdiv_def sgn_if)

lemma relax_eq:
  "(let t1 = (if t > 20 then max 20 (t - 1) else t);
        t2 = (if t1 < 20 then min 20 (t1 + 1) else t1) in (t2::int)) =
   (if t > 20 then t - 1 else if t < 20 then t + 1 else t)"
  by (auto simp: Let_def)

lemma UpdateTemperature_cell_eq:
  "UpdateTemperature_cell s (x, y) =
    (if Get s x y = Empty then s
     else
       (let occ = filter (\<lambda>(dx, dy). Get s (x + dx) (y + dy) \<noteq> Empty) offsets8;
            total = GetTemperature s x y +
              sum_list (map (\<lambda>(dx, dy). GetTemperature s (x + dx) (y + dy)) occ);
            n = 1 + int (length occ);
            mean = (if 0 \<le> total then total div n else - ((- total) div n))
        in SetTemperature s x y
             (if mean > 20 then mean - 1 else if mean < 20 then mean + 1 else mean)))"
  by (simp add: UpdateTemperature_cell_def temp_acc_fold cdiv_pos Let_def)

lemma UpdateTemperature_cell_wf [simp]:
  "well_formed (UpdateTemperature_cell s c) = well_formed s"
  by (simp add: well_formed_def UpdateTemperature_cell_frame)

lemma Get_UpdateTemperature_cell [simp]: "Get (UpdateTemperature_cell s c) a b = Get s a b"
  by (simp add: Get_def UpdateTemperature_cell_frame)

lemma GetTemperature_UpdateTemperature_cell_other:
  "well_formed s \<Longrightarrow> (a, b) \<noteq> c \<Longrightarrow>
   GetTemperature (UpdateTemperature_cell s c) a b = GetTemperature s a b"
  by (cases c) (auto simp: UpdateTemperature_cell_eq Let_def GetTemperature_SetTemperature)

lemma foldl_temp_wf [simp]: "well_formed (foldl UpdateTemperature_cell s cs) = well_formed s"
  by (induction cs arbitrary: s) simp_all

lemma foldl_temp_Get [simp]: "Get (foldl UpdateTemperature_cell s cs) a b = Get s a b"
  by (induction cs arbitrary: s) simp_all

lemma foldl_temp_other:
  "well_formed s \<Longrightarrow> (a, b) \<notin> set cs \<Longrightarrow>
   GetTemperature (foldl UpdateTemperature_cell s cs) a b = GetTemperature s a b"
  by (induction cs arbitrary: s) (auto simp: GetTemperature_UpdateTemperature_cell_other)

lemma temp_cells_distinct: "distinct (temp_cells w h)"
  unfolding temp_cells_def by (rule distinct_cells) simp_all

lemma temp_cells_iff:
  "((a, b) \<in> set (temp_cells w h)) = (1 \<le> a \<and> a \<le> w - 2 \<and> 1 \<le> b \<and> b \<le> h - 2)"
  by (auto simp: temp_cells_def image_iff)

text \<open>The cells the pass visits before \<open>(x, y)\<close>, and the ones it visits after.\<close>

lemma temp_cells_split:
  assumes "1 \<le> x" "x \<le> w - 2" "1 \<le> y" "y \<le> h - 2"
  shows "\<exists>pre post. temp_cells w h = pre @ (x, y) # post \<and>
    (\<forall>a b. ((a, b) \<in> set pre) =
       (1 \<le> a \<and> a \<le> w - 2 \<and> 1 \<le> b \<and> b \<le> h - 2 \<and> (b < y \<or> (b = y \<and> a < x))))"
proof -
  let ?row = "\<lambda>b. map (\<lambda>a. (a, b)) [1..w - 2]"
  have ys: "[1..h - 2] = [1..y - 1] @ y # [y + 1..h - 2]" using assms by (intro upto_split3) auto
  have xs: "[1..w - 2] = [1..x - 1] @ x # [x + 1..w - 2]" using assms by (intro upto_split3) auto
  have r: "?row y = map (\<lambda>a. (a, y)) [1..x - 1] @ (x, y) # map (\<lambda>a. (a, y)) [x + 1..w - 2]"
    by (subst xs) simp
  let ?pre = "concat (map ?row [1..y - 1]) @ map (\<lambda>a. (a, y)) [1..x - 1]"
  let ?post = "map (\<lambda>a. (a, y)) [x + 1..w - 2] @ concat (map ?row [y + 1..h - 2])"
  have "temp_cells w h = concat (map ?row [1..y - 1]) @ ?row y @ concat (map ?row [y + 1..h - 2])"
    unfolding temp_cells_def by (subst ys) simp
  then have "temp_cells w h = ?pre @ (x, y) # ?post" by (simp add: r)
  moreover have "\<forall>a b. ((a, b) \<in> set ?pre) =
       (1 \<le> a \<and> a \<le> w - 2 \<and> 1 \<le> b \<and> b \<le> h - 2 \<and> (b < y \<or> (b = y \<and> a < x)))"
    using assms by (auto simp: image_iff)
  ultimately show ?thesis by blast
qed

text \<open>The pass leaves the Ice cell of the top row at its stored -10: the loops start at row 1.
  The other Ice cell, in row 2, is averaged with the three floor cells below it and relaxed.
  The same temperatures stand after a whole tick.\<close>

theorem diffusion_counterexample:
  "Get ice_demo 2 0 = Ice \<and> GetTemperature ice_demo 2 0 = - 10 \<and>
   GetTemperature (UpdateTemperature ice_demo) 2 0 = - 10 \<and>
   GetTemperature (tick ice_demo) 2 0 = - 10 \<and>
   Get ice_demo 2 2 = Ice \<and> GetTemperature ice_demo 2 2 = - 10 \<and>
   GetTemperature (UpdateTemperature ice_demo) 2 2 = 13"
  by code_simp

text \<open>C4, as the code has it. The pass visits the cells of columns \<open>1 .. width - 2\<close> and
  rows \<open>1 .. height - 2\<close>, row by row from the top and from left to right, and updates the
  temperatures in place. A visited cell that is not Empty in the current buffer gets the
  mean of its own temperature and the temperatures of its non-Empty neighbours among the
  eight surrounding cells, relaxed by one unit toward 20. The mean is the integer quotient,
  truncated toward zero, by the number of cells counted, which is at least 1. A neighbour
  the pass has already visited (the three above and the one to the left) counts with its
  new temperature, the others with the old one. Every other cell keeps its temperature:
  the Empty cells, and all cells of row 0, of the two outer columns and of the last row.
  The pass changes neither cell buffer.\<close>

theorem diffusion_pass:
  assumes "well_formed s" "s' = UpdateTemperature s" "\<not> oob (width s) (height s) x y"
    and "visited = (1 \<le> x \<and> x \<le> width s - 2 \<and> 1 \<le> y \<and> y \<le> height s - 2 \<and>
                    Get s x y \<noteq> Empty)"
    and "occ = filter (\<lambda>(dx, dy). Get s (x + dx) (y + dy) \<noteq> Empty) offsets8"
    and "seen = (\<lambda>(dx, dy). if dy < 0 \<or> (dy = 0 \<and> dx < 0)
                   then GetTemperature s' (x + dx) (y + dy)
                   else GetTemperature s (x + dx) (y + dy))"
    and "tsum = GetTemperature s x y + sum_list (map seen occ)"
    and "n = 1 + int (length occ)"
    and "mean = (if 0 \<le> tsum then tsum div n else - ((- tsum) div n))"
  shows "GetTemperature s' x y =
      (if visited then (if mean > 20 then mean - 1 else if mean < 20 then mean + 1 else mean)
       else GetTemperature s x y) \<and>
    grid s' = grid s \<and> nextGrid s' = nextGrid s"
proof -
  let ?w = "width s" and ?h = "height s"
  have fr: "grid s' = grid s \<and> nextGrid s' = nextGrid s" by (simp add: assms(2))
  have s'_def: "s' = foldl UpdateTemperature_cell s (temp_cells ?w ?h)"
    by (simp add: assms(2) UpdateTemperature_def)
  show ?thesis
  proof (cases "1 \<le> x \<and> x \<le> ?w - 2 \<and> 1 \<le> y \<and> y \<le> ?h - 2")
    case False
    then have "(x, y) \<notin> set (temp_cells ?w ?h)" by (simp add: temp_cells_iff)
    then have "GetTemperature s' x y = GetTemperature s x y"
      unfolding s'_def using assms(1) by (intro foldl_temp_other)
    then show ?thesis using False fr by (auto simp: assms(4))
  next
    case True
    then obtain pre post where sp: "temp_cells ?w ?h = pre @ (x, y) # post"
      and pre: "\<And>a b. ((a, b) \<in> set pre) =
        (1 \<le> a \<and> a \<le> ?w - 2 \<and> 1 \<le> b \<and> b \<le> ?h - 2 \<and> (b < y \<or> (b = y \<and> a < x)))"
      using temp_cells_split [of x ?w y ?h] by auto
    have di: "distinct (pre @ (x, y) # post)" using temp_cells_distinct [of ?w ?h] sp by simp
    define s1 where "s1 = foldl UpdateTemperature_cell s pre"
    define s2 where "s2 = UpdateTemperature_cell s1 (x, y)"
    have s3: "s' = foldl UpdateTemperature_cell s2 post" by (simp add: s'_def sp s1_def s2_def)
    have wf1: "well_formed s1" and wf2: "well_formed s2"
      using assms(1) by (simp_all add: s1_def s2_def)
    have g1: "Get s1 a b = Get s a b" for a b by (simp add: s1_def)
    have own: "GetTemperature s1 x y = GetTemperature s x y"
      unfolding s1_def using assms(1) di by (intro foldl_temp_other) auto
    have last: "GetTemperature s' x y = GetTemperature s2 x y"
      unfolding s3 using wf2 di by (intro foldl_temp_other) auto
    have nb: "GetTemperature s1 (x + dx) (y + dy) = seen (dx, dy)"
      if d: "(dx, dy) \<in> set offsets8" for dx dy
    proof (cases "(x + dx, y + dy) \<in> set pre")
      case True
      then have np: "(x + dx, y + dy) \<notin> set post" "(x + dx, y + dy) \<noteq> (x, y)"
        using di by auto
      have "GetTemperature s' (x + dx) (y + dy) = GetTemperature s2 (x + dx) (y + dy)"
        unfolding s3 using wf2 np(1) by (intro foldl_temp_other)
      also have "\<dots> = GetTemperature s1 (x + dx) (y + dy)"
        unfolding s2_def using wf1 np(2) by (intro GetTemperature_UpdateTemperature_cell_other)
      finally show ?thesis using True by (auto simp: assms(6) pre)
    next
      case False
      have a: "GetTemperature s1 (x + dx) (y + dy) = GetTemperature s (x + dx) (y + dy)"
        unfolding s1_def using assms(1) False by (intro foldl_temp_other)
      show ?thesis
      proof (cases "dy < 0 \<or> (dy = 0 \<and> dx < 0)")
        case e: True
        then have "(x + dx, y + dy) \<notin> set (temp_cells ?w ?h)"
          using False by (auto simp: pre temp_cells_iff)
        then have "GetTemperature s' (x + dx) (y + dy) = GetTemperature s (x + dx) (y + dy)"
          unfolding s'_def using assms(1) by (intro foldl_temp_other)
        then show ?thesis using e a by (simp add: assms(6))
      next
        case e: False
        then show ?thesis using a by (auto simp: assms(6))
      qed
    qed
    have occ_sub: "set occ \<subseteq> set offsets8" by (auto simp: assms(5))
    have sm: "sum_list (map (\<lambda>(dx, dy). GetTemperature s1 (x + dx) (y + dy)) occ) =
        sum_list (map seen occ)"
      by (rule arg_cong [where f = sum_list], rule map_cong [OF refl]) (use occ_sub nb in auto)
    have occ1: "filter (\<lambda>(dx, dy). Get s1 (x + dx) (y + dy) \<noteq> Empty) offsets8 = occ"
      by (simp add: g1 assms(5))
    show ?thesis
    proof (cases "Get s x y = Empty")
      case e: True
      then have "s2 = s1" by (simp add: s2_def UpdateTemperature_cell_eq g1)
      then show ?thesis using e last own fr by (auto simp: assms(4))
    next
      case e: False
      let ?occ1 = "filter (\<lambda>(dx, dy). Get s1 (x + dx) (y + dy) \<noteq> Empty) offsets8"
      have m1: "GetTemperature s1 x y +
          sum_list (map (\<lambda>(dx, dy). GetTemperature s1 (x + dx) (y + dy)) ?occ1) = tsum"
        by (simp only: occ1 sm own assms(7))
      have n1: "1 + int (length ?occ1) = n" by (simp only: occ1 assms(8))
      have d1: "width s1 = width s" "height s1 = height s"
        by (simp_all add: s1_def foldl_UpdateTemperature_cell_frame)
      have "s2 = SetTemperature s1 x y
          (if mean > 20 then mean - 1 else if mean < 20 then mean + 1 else mean)"
        unfolding s2_def UpdateTemperature_cell_eq Let_def m1 n1 assms(9) [symmetric]
        using e by (simp add: g1)
      then have "GetTemperature s2 x y =
          (if mean > 20 then mean - 1 else if mean < 20 then mean + 1 else mean)"
        using wf1 assms(3) by (simp add: GetTemperature_SetTemperature d1)
      then show ?thesis using e True last fr by (auto simp: assms(4))
    qed
  qed
qed

theorem diffusion_pass_witness:
  "well_formed ice_demo \<and> \<not> oob (width ice_demo) (height ice_demo) 2 2 \<and>
   Get ice_demo 2 2 = Ice \<and> GetTemperature ice_demo 2 2 = - 10 \<and>
   filter (\<lambda>(dx, dy). Get ice_demo (2 + dx) (2 + dy) \<noteq> Empty) offsets8 =
     [(- 1, 1), (0, 1), (1, 1)] \<and>
   GetTemperature ice_demo 1 3 = 20 \<and> GetTemperature ice_demo 2 3 = 20 \<and>
   GetTemperature ice_demo 3 3 = 20 \<and>
   GetTemperature (UpdateTemperature ice_demo) 2 2 = 13"
proof -
  define seen where "seen = (\<lambda>(dx::int, dy::int). if dy < 0 \<or> (dy = 0 \<and> dx < 0)
                   then GetTemperature (UpdateTemperature ice_demo) (2 + dx) (2 + dy)
                   else GetTemperature ice_demo (2 + dx) (2 + dy))"
  have a: "well_formed ice_demo" "\<not> oob (width ice_demo) (height ice_demo) 2 2"
    "Get ice_demo 2 2 = Ice" "GetTemperature ice_demo 2 2 = - 10"
    "GetTemperature ice_demo 1 3 = 20" "GetTemperature ice_demo 2 3 = 20"
    "GetTemperature ice_demo 3 3 = 20"
    by code_simp+
  have v: "True = (1 \<le> (2::int) \<and> 2 \<le> width ice_demo - 2 \<and> 1 \<le> (2::int) \<and>
      2 \<le> height ice_demo - 2 \<and> Get ice_demo 2 2 \<noteq> Empty)"
    by code_simp
  have o: "[(- 1, 1), (0, 1), (1, 1)] =
      filter (\<lambda>(dx, dy). Get ice_demo (2 + dx) (2 + dy) \<noteq> Empty) offsets8"
    by code_simp
  have t: "50 = GetTemperature ice_demo 2 2 + sum_list (map seen [(- 1, 1), (0, 1), (1, 1)])"
    using a(4,5,6,7) by (simp add: seen_def)
  have n: "(4::int) = 1 + int (length [(- 1::int, 1::int), (0, 1), (1, 1)])" by simp
  have m: "(12::int) = (if 0 \<le> (50::int) then 50 div 4 else - ((- 50) div 4))" by simp
  from diffusion_pass [OF a(1) refl a(2) v o seen_def t n m]
  have "GetTemperature (UpdateTemperature ice_demo) 2 2 = 13" by simp
  then show ?thesis using a o by simp
qed

section \<open>Sand\<close>
























end
